theory Spec2Isabelle
  imports Main "HOL-Library.AList"
begin

section \<open>JavaScript values used by the data layer\<close>

text \<open>
  A property of a row or of an object can be missing (\<open>undefined\<close>), SQL NULL
  (\<open>null\<close>) or hold a value.  Identifiers are declared \<open>number | string\<close>.
  Truthiness is JavaScript's: \<open>undefined\<close>, \<open>null\<close>, the empty string and the
  number 0 are falsy.  Numbers are the integers (identifiers and counters never leave
  the exactly representable range).
\<close>

datatype 'a opt = Undefined | Null | Val 'a

datatype ident = Num int | Str string

fun truthy :: "string opt \<Rightarrow> bool" where
  "truthy (Val s) = (s \<noteq> [])"
| "truthy Undefined = False"
| "truthy Null = False"

fun truthy_ident :: "ident \<Rightarrow> bool" where
  "truthy_ident (Num n) = (n \<noteq> 0)"
| "truthy_ident (Str s) = (s \<noteq> [])"

fun truthy_id :: "ident opt \<Rightarrow> bool" where
  "truthy_id (Val i) = truthy_ident i"
| "truthy_id Undefined = False"
| "truthy_id Null = False"

text \<open>\<open>a || b\<close> on two optional strings: the left operand when it is truthy, else the right.\<close>

definition or_js :: "string opt \<Rightarrow> string opt \<Rightarrow> string opt" where
  "or_js a b = (if truthy a then a else b)"

text \<open>\<open>a || 'literal'\<close>: the chain ends in a string literal, so the result is a string.\<close>

fun or_lit :: "string opt \<Rightarrow> string \<Rightarrow> string" where
  "or_lit (Val s) d = (if s \<noteq> [] then s else d)"
| "or_lit Undefined d = d"
| "or_lit Null d = d"

section \<open>The remote query interface\<close>

text \<open>
  The query builder of the hosted database client, as far as \<open>fetchAllPages\<close> and its
  callers drive it: \<open>from(table).select(columns)\<close>, then the caller's filters
  (\<open>.not(column, operator, null)\<close> is the only one used), an optional descending
  \<open>order\<close>, and a \<open>range(from, to)\<close>.  Awaiting the ranged query gives
  \<open>{ data, error }\<close>; the client is a function from the query to that response.
  Every request of one fetch carries a different range, so a function of the query
  covers a store whose content changes between two requests.
\<close>

datatype qfilter = NotFilter string string "string option"

record query =
  q_table :: string
  q_select :: string
  q_filters :: "qfilter list"
  q_order :: "string option"
  q_range :: "(nat \<times> nat) option"

record ('r, 'e) response =
  data :: "'r list option"
  error :: "'e option"

definition from_select :: "string \<Rightarrow> string \<Rightarrow> query" where
  "from_select tableName selectQuery =
     \<lparr>q_table = tableName, q_select = selectQuery, q_filters = [], q_order = None,
      q_range = None\<rparr>"

definition pageSize :: nat where
  "pageSize = 1000"

text \<open>\<open>if (orderBy)\<close>: \<open>null\<close> and the empty string are falsy.\<close>

fun truthy_order :: "string option \<Rightarrow> bool" where
  "truthy_order None = False"
| "truthy_order (Some s) = (s \<noteq> [])"

text \<open>The query of one iteration, for the page counter \<open>page\<close>.\<close>

definition build_query ::
  "string \<Rightarrow> string \<Rightarrow> (query \<Rightarrow> query) \<Rightarrow> string option \<Rightarrow> nat \<Rightarrow> query" where
  "build_query tableName selectQuery filters orderBy page =
     (let from = page * pageSize;
          to = (page + 1) * pageSize - 1;
          query = from_select tableName selectQuery;
          query = filters query;
          query = (if truthy_order orderBy then query\<lparr>q_order := orderBy\<rparr> else query)
      in query\<lparr>q_range := Some (from, to)\<rparr>)"

section \<open>fetchAllPages\<close>

text \<open>
  The state of the loop: the rows collected so far, the page counter, and the requests
  issued so far (the model's record of the calls made to the client).  Console output
  is not part of the model; \<open>silent\<close> only gates console output, so it is kept as a
  parameter that no result depends on.
\<close>

record 'r fetch_state =
  allData :: "'r list"
  page :: nat
  issued :: "query list"

text \<open>How one iteration of the \<open>while (hasMore)\<close> loop ends.\<close>

datatype 'e flow = Thrown 'e | Break | HasMore bool

definition fetch_page ::
  "(query \<Rightarrow> ('r, 'e) response) \<Rightarrow> string \<Rightarrow> string \<Rightarrow> (query \<Rightarrow> query) \<Rightarrow>
   string option \<Rightarrow> 'r fetch_state \<Rightarrow> 'r fetch_state \<times> 'e flow" where
  "fetch_page db tableName selectQuery filters orderBy st =
     (let query = build_query tableName selectQuery filters orderBy (page st);
          resp = db query;
          st = st\<lparr>issued := issued st @ [query]\<rparr>
      in case error resp of
           Some e \<Rightarrow> (st, Thrown e)
         | None \<Rightarrow>
             (let (st, hasMore) =
                    (case data resp of
                       None \<Rightarrow> (st, False)
                     | Some d \<Rightarrow>
                         if length d > 0
                         then (st\<lparr>allData := allData st @ d\<rparr>,
                               if length d < pageSize then False else True)
                         else (st, False));
                  st = st\<lparr>page := page st + 1\<rparr>
              in if page st > 50 then (st, Break) else (st, HasMore hasMore)))"

lemma fetch_page_HasMore_page:
  "fetch_page db t s f ob st = (st', HasMore b) \<Longrightarrow> page st' = page st + 1 \<and> page st' \<le> 50"
  by (auto simp: fetch_page_def Let_def split: option.splits if_splits prod.splits)

function fetch_loop ::
  "(query \<Rightarrow> ('r, 'e) response) \<Rightarrow> string \<Rightarrow> string \<Rightarrow> (query \<Rightarrow> query) \<Rightarrow>
   string option \<Rightarrow> 'r fetch_state \<Rightarrow> 'r fetch_state \<times> 'e option" where
  "fetch_loop db tableName selectQuery filters orderBy st =
     (case fetch_page db tableName selectQuery filters orderBy st of
        (st', Thrown e) \<Rightarrow> (st', Some e)
      | (st', Break) \<Rightarrow> (st', None)
      | (st', HasMore hasMore) \<Rightarrow>
          if hasMore then fetch_loop db tableName selectQuery filters orderBy st'
          else (st', None))"
  by pat_completeness auto
termination
  by (relation "measure (\<lambda>(db, t, s, f, ob, st). 51 - page st)")
     (auto dest!: fetch_page_HasMore_page [OF sym])

text \<open>
  What the \<open>catch\<close> block asks of the value it caught (line 75): \<open>err.message\<close>,
  \<open>typeof err === 'object'\<close>, \<open>JSON.stringify(err)\<close> and \<open>String(err)\<close>.  The
  answers depend on the object (its properties and getters, \<open>toJSON\<close>,
  \<open>toString\<close>, cycles), so the four operations are parameters.  The three that can
  run code of the object or fail on its shape may throw: \<open>Inl\<close> is the value thrown,
  \<open>Inr\<close> the result.
\<close>

record 'e js_runtime =
  message_of :: "'e \<Rightarrow> 'e + string opt"
  is_object :: "'e \<Rightarrow> bool"
  JSON_stringify :: "'e \<Rightarrow> 'e + string opt"
  String_of :: "'e \<Rightarrow> 'e + string"

text \<open>
  Line 75, \<open>err.message || (typeof err === 'object' ? JSON.stringify(err) : String(err))\<close>:
  the text for the log, or the value that evaluating it throws.
\<close>

definition error_details :: "'e js_runtime \<Rightarrow> 'e \<Rightarrow> 'e + string opt" where
  "error_details rt err =
     (case message_of rt err of
        Inl thrown \<Rightarrow> Inl thrown
      | Inr message \<Rightarrow>
          if truthy message then Inr message
          else if is_object rt err then JSON_stringify rt err
          else (case String_of rt err of
                  Inl thrown \<Rightarrow> Inl thrown
                | Inr text \<Rightarrow> Inr (Val text)))"

text \<open>
  The result of a whole fetch: what the promise settles to (\<open>Inl\<close> the rejection
  value, \<open>Inr\<close> the rows) and the requests that were issued.  The \<open>catch\<close> block
  evaluates \<open>errorDetails\<close> first, in silent mode too, and then rethrows \<open>err\<close>;
  when that evaluation throws, the fetch rejects with the value it threw instead.
\<close>

record ('r, 'e) fetch_run =
  settled :: "'e + 'r list"
  requests :: "query list"

definition fetchAllPages ::
  "'e js_runtime \<Rightarrow> (query \<Rightarrow> ('r, 'e) response) \<Rightarrow> string \<Rightarrow> string \<Rightarrow>
   (query \<Rightarrow> query) \<Rightarrow> string option \<Rightarrow> bool \<Rightarrow> ('r, 'e) fetch_run" where
  "fetchAllPages rt db tableName selectQuery filters orderBy silent =
     (case fetch_loop db tableName selectQuery filters orderBy
             \<lparr>allData = [], page = 0, issued = []\<rparr> of
        (st, Some err) \<Rightarrow>
          (case error_details rt err of
             Inl thrown \<Rightarrow> \<lparr>settled = Inl thrown, requests = issued st\<rparr>
           | Inr errorDetails \<Rightarrow> \<lparr>settled = Inl err, requests = issued st\<rparr>)
      | (st, None) \<Rightarrow> \<lparr>settled = Inr (allData st), requests = issued st\<rparr>)"

section \<open>Employees and the roster fallback\<close>

text \<open>
  \<open>Employee\<close> of \<open>types.ts\<close>, with the fields that the roster extraction writes and
  the aggregation reads (the interface declares further optional fields and an index
  signature; no function below touches them).  Field names carry the prefix \<open>e_\<close>.
\<close>

record Employee =
  e_id :: ident
  e_full_name :: "string opt"
  e_first_name :: "string opt"
  e_last_name :: "string opt"
  e_name :: "string opt"
  e_employee_name :: "string opt"
  e_program :: "string opt"
  e_program_name :: "string opt"
  e_account_name :: "string opt"
  e_company :: "string opt"
  e_department :: "string opt"
  e_email :: "string opt"
  e_company_email :: "string opt"
  e_avatar_url :: "string opt"
  e_created_at :: "string opt"

text \<open>
  A row of \<open>session_tracking\<close> as the fallback reads it (\<open>s: any\<close>): the properties
  the callback looks at, prefix \<open>r_\<close>.
\<close>

record session_row =
  r_employee_name :: "string opt"
  r_employee_id :: "ident opt"
  r_program :: "string opt"
  r_program_name :: "string opt"
  r_Program :: "string opt"
  r_Program_Name :: "string opt"
  r_account_name :: "string opt"
  r_Account_Name :: "string opt"
  r_department :: "string opt"
  r_Department :: "string opt"
  r_email :: "string opt"
  r_Email :: "string opt"
  r_email_address :: "string opt"
  r_company_email :: "string opt"
  r_Company_Email :: "string opt"
  r_created_at :: "string opt"

text \<open>\<open>employee_id || x\<close>: the identifier when it is truthy, else \<open>x\<close>.\<close>

fun or_id :: "ident opt \<Rightarrow> ident \<Rightarrow> ident" where
  "or_id (Val i) x = (if truthy_ident i then i else x)"
| "or_id Undefined x = x"
| "or_id Null x = x"

text \<open>\<open>s.split(sep)\<close> for a one-character separator, and \<open>parts.join(sep)\<close>.\<close>

fun split_js :: "char \<Rightarrow> string \<Rightarrow> string list" where
  "split_js sep [] = [[]]"
| "split_js sep (c # cs) =
     (if c = sep then [] # split_js sep cs
      else (case split_js sep cs of
              [] \<Rightarrow> [[c]]
            | w # ws \<Rightarrow> (c # w) # ws))"

fun join_js :: "char \<Rightarrow> string list \<Rightarrow> string" where
  "join_js sep [] = []"
| "join_js sep [w] = w"
| "join_js sep (w # v # ws) = w @ sep # join_js sep (v # ws)"

text \<open>\<open>parts[0]\<close>: \<open>undefined\<close> on an empty array.\<close>

fun index0 :: "string list \<Rightarrow> string opt" where
  "index0 [] = Undefined"
| "index0 (w # ws) = Val w"

text \<open>
  The object literal stored for a row (lines 138 to 157).  \<open>random\<close> stands for
  \<open>Math.random().toString(36).substr(2, 9)\<close>.
\<close>

definition employee_of_row :: "session_row \<Rightarrow> string \<Rightarrow> string \<Rightarrow> Employee" where
  "employee_of_row s name random =
     \<lparr>e_id = or_id (r_employee_id s) (Str (''gen-'' @ random)),
      e_full_name = Val name,
      e_first_name = index0 (split_js CHR '' '' name),
      e_last_name = Val (join_js CHR '' '' (drop 1 (split_js CHR '' '' name))),
      e_name = Undefined,
      e_employee_name = Undefined,
      e_program = or_js (or_js (or_js (r_program s) (r_program_name s)) (r_Program s))
                    (r_Program_Name s),
      e_program_name = Undefined,
      e_account_name = or_js (r_account_name s) (r_Account_Name s),
      e_company = or_js (r_account_name s) (r_Account_Name s),
      e_department = or_js (or_js (r_department s) (r_Department s)) (r_account_name s),
      e_email = or_js (or_js (or_js (or_js (r_email s) (r_Email s)) (r_email_address s))
                  (r_company_email s)) (r_Company_Email s),
      e_company_email = or_js (or_js (r_company_email s) (r_Company_Email s)) (r_email s),
      e_avatar_url = Undefined,
      e_created_at = r_created_at s\<rparr>"

text \<open>
  \<open>uniqueEmployees\<close> is a \<open>Map\<close>: an association list in insertion order, where
  \<open>set\<close> on a key that is present replaces the value in place (\<open>AList.update\<close>) and
  \<open>get\<close> is \<open>map_of\<close>.  \<open>draws\<close> counts the calls of \<open>Math.random\<close> so far; the
  \<open>n\<close>-th call renders as \<open>rnd n\<close>.
\<close>

record roster_state =
  uniqueEmployees :: "(ident \<times> Employee) list"
  draws :: nat

text \<open>\<open>existing?.program\<close>.\<close>

fun existing_program :: "Employee option \<Rightarrow> string opt" where
  "existing_program None = Undefined"
| "existing_program (Some e) = e_program e"

text \<open>The callback of \<open>sessionData.forEach\<close> (lines 126 to 159).\<close>

definition roster_step :: "(nat \<Rightarrow> string) \<Rightarrow> roster_state \<Rightarrow> session_row \<Rightarrow> roster_state" where
  "roster_step rnd st s =
     (case r_employee_name s of
        Val name \<Rightarrow>
          if name = [] then st
          else
            (let key = or_id (r_employee_id s) (Str name);
                 existing = map_of (uniqueEmployees st) key;
                 hasMoreInfo = (\<not> truthy (existing_program existing)
                                \<and> truthy (or_js (r_program s) (r_program_name s)))
             in if existing = None \<or> hasMoreInfo
                then st\<lparr>uniqueEmployees :=
                          AList.update key (employee_of_row s name (rnd (draws st)))
                            (uniqueEmployees st),
                        draws := (if truthy_id (r_employee_id s) then draws st
                                  else draws st + 1)\<rparr>
                else st)
      | Undefined \<Rightarrow> st
      | Null \<Rightarrow> st)"

definition extract_employees :: "(nat \<Rightarrow> string) \<Rightarrow> session_row list \<Rightarrow> roster_state" where
  "extract_employees rnd sessionData =
     foldl (roster_step rnd) \<lparr>uniqueEmployees = [], draws = 0\<rparr> sessionData"

text \<open>
  \<open>getEmployeeRoster\<close>.  The one client is read at two row types, the roster table's
  and the session table's.  A failure of the first fetch is caught and leaves
  \<open>rosterData\<close> empty; a failure of the second one is the function's own failure.
\<close>

definition getEmployeeRoster ::
  "'e js_runtime \<Rightarrow> (query \<Rightarrow> (Employee, 'e) response) \<Rightarrow>
   (query \<Rightarrow> (session_row, 'e) response) \<Rightarrow> (nat \<Rightarrow> string) \<Rightarrow> 'e + Employee list" where
  "getEmployeeRoster rt db_roster db_sessions rnd =
     (let rosterData =
            (case settled (fetchAllPages rt db_roster ''employee_manager'' ''*'' (\<lambda>q. q) None True) of
               Inr rows \<Rightarrow> rows
             | Inl e \<Rightarrow> [])
      in if length rosterData > 0 then Inr rosterData
         else
           (case settled (fetchAllPages rt db_sessions ''session_tracking'' ''*''
                    (\<lambda>q. q\<lparr>q_filters := q_filters q @ [NotFilter ''employee_name'' ''is'' None]\<rparr>)
                    (Some ''created_at'') False) of
              Inl err \<Rightarrow> Inl err
            | Inr sessionData \<Rightarrow>
                Inr (map snd (uniqueEmployees (extract_employees rnd sessionData)))))"

section \<open>Strings\<close>

text \<open>
  A string is a list of 8-bit code units (ISO 8859-1, of which ASCII is the lower
  half).  On these, \<open>toLowerCase\<close> maps A to Z and the accented capitals
  (192 to 222 except the multiplication sign 215) 32 places up and leaves every other
  unit alone; \<open>trim\<close> strips tab, line feed, vertical tab, form feed, carriage
  return, space and the no-break space from both ends; \<open>includes\<close> is the substring
  test.
\<close>

definition lower_char :: "char \<Rightarrow> char" where
  "lower_char c =
     (let n = (of_char c :: nat)
      in if (65 \<le> n \<and> n \<le> 90) \<or> (192 \<le> n \<and> n \<le> 222 \<and> n \<noteq> 215)
         then char_of (n + 32) else c)"

definition toLowerCase :: "string \<Rightarrow> string" where
  "toLowerCase s = map lower_char s"

definition is_space :: "char \<Rightarrow> bool" where
  "is_space c =
     (let n = (of_char c :: nat) in (9 \<le> n \<and> n \<le> 13) \<or> n = 32 \<or> n = 160)"

definition trim_js :: "string \<Rightarrow> string" where
  "trim_js s = rev (dropWhile is_space (rev (dropWhile is_space s)))"

fun starts_with :: "string \<Rightarrow> string \<Rightarrow> bool" where
  "starts_with s [] = True"
| "starts_with [] (c # cs) = False"
| "starts_with (x # xs) (c # cs) = (x = c \<and> starts_with xs cs)"

fun includes_js :: "string \<Rightarrow> string \<Rightarrow> bool" where
  "includes_js [] sub = (sub = [])"
| "includes_js (x # xs) sub = (starts_with (x # xs) sub \<or> includes_js xs sub)"

text \<open>A value inside a template literal: \<open>`${v}`\<close>.\<close>

fun template :: "string opt \<Rightarrow> string" where
  "template (Val s) = s"
| "template Undefined = ''undefined''"
| "template Null = ''null''"

section \<open>Sessions and the aggregation\<close>

text \<open>
  \<open>SessionWithEmployee\<close> of \<open>types.ts\<close>: the fields the aggregation reads, prefix
  \<open>s_\<close>, and the joined sub-record \<open>employee_manager\<close>, prefix \<open>m_\<close>.
\<close>

record manager =
  m_first_name :: "string opt"
  m_last_name :: "string opt"
  m_full_name :: "string opt"
  m_program :: "string opt"
  m_avatar_url :: "string opt"

record Session =
  s_id :: ident
  s_session_date :: string
  s_employee_name :: "string opt"
  s_status :: "string opt"
  s_program_name :: "string opt"
  s_program :: "string opt"
  s_employee_id :: "ident opt"
  s_employee_manager :: "manager opt"

text \<open>
  A value of \<open>statsMap\<close>, prefix \<open>stat_\<close>.  A \<open>Date\<close> is its time value in
  milliseconds, \<open>None\<close> for an invalid date (NaN); \<open>latestSession\<close> is a date or
  \<open>null\<close>.
\<close>

record stat =
  stat_id :: ident
  stat_name :: string
  stat_program :: string
  stat_avatar_url :: "string opt"
  stat_completed :: nat
  stat_noshow :: nat
  stat_scheduled :: nat
  stat_total :: nat
  stat_latestSession :: "int option option"

text \<open>
  Step 1 (lines 81 to 96): one record per roster employee, a later one replacing an
  earlier one under the same key.
\<close>

definition employee_display_name :: "Employee \<Rightarrow> string" where
  "employee_display_name emp =
     or_lit (or_js (or_js (e_full_name emp) (e_employee_name emp)) (e_name emp)) ''Unknown''"

definition seed_employee :: "(string \<times> stat) list \<Rightarrow> Employee \<Rightarrow> (string \<times> stat) list" where
  "seed_employee statsMap emp =
     (let name = employee_display_name emp;
          key = toLowerCase name
      in AList.update key
           \<lparr>stat_id = e_id emp,
            stat_name = name,
            stat_program = or_lit (or_js (e_program emp) (e_program_name emp)) ''Unassigned'',
            stat_avatar_url = e_avatar_url emp,
            stat_completed = 0,
            stat_noshow = 0,
            stat_scheduled = 0,
            stat_total = 0,
            stat_latestSession = None\<rparr>
           statsMap)"

text \<open>
  Lines 101 to 104.  The conditional operator binds weaker than \<open>||\<close>: the test is
  \<open>emp?.full_name || emp?.first_name\<close>, and the branch taken on a truthy test is the
  template of \<open>first_name\<close> and \<open>last_name\<close>.  With \<open>emp\<close> null or undefined both
  optional chains are undefined and the flat field is used.
\<close>

definition flat_name :: "Session \<Rightarrow> string" where
  "flat_name session = or_lit (s_employee_name session) ''Unknown Employee''"

definition resolve_name :: "Session \<Rightarrow> string" where
  "resolve_name session =
     (case s_employee_manager session of
        Val emp \<Rightarrow>
          if truthy (or_js (m_full_name emp) (m_first_name emp))
          then trim_js (template (m_first_name emp) @ '' '' @ or_lit (m_last_name emp) [])
          else flat_name session
      | Undefined \<Rightarrow> flat_name session
      | Null \<Rightarrow> flat_name session)"

text \<open>\<open>emp?.avatar_url\<close>.\<close>

fun manager_avatar :: "manager opt \<Rightarrow> string opt" where
  "manager_avatar (Val emp) = m_avatar_url emp"
| "manager_avatar Undefined = Undefined"
| "manager_avatar Null = Undefined"

text \<open>The record created for a session whose key is not in the map (lines 110 to 120).\<close>

definition new_entry :: "Session \<Rightarrow> stat" where
  "new_entry session =
     \<lparr>stat_id = or_id (s_employee_id session) (s_id session),
      stat_name = resolve_name session,
      stat_program = or_lit (or_js (s_program session) (s_program_name session)) ''Unassigned'',
      stat_avatar_url = manager_avatar (s_employee_manager session),
      stat_completed = 0,
      stat_noshow = 0,
      stat_scheduled = 0,
      stat_total = 0,
      stat_latestSession = None\<rparr>"

text \<open>
  \<open>sessionDate < new Date()\<close> and \<open>sessionDate > entry.latestSession\<close>: a comparison
  with an invalid date is false.
\<close>

fun date_less :: "int option \<Rightarrow> int option \<Rightarrow> bool" where
  "date_less (Some a) (Some b) = (a < b)"
| "date_less None b = False"
| "date_less (Some a) None = False"

text \<open>\<open>!entry.latestSession || sessionDate > entry.latestSession\<close>.\<close>

fun is_later :: "int option \<Rightarrow> int option option \<Rightarrow> bool" where
  "is_later sessionDate None = True"
| "is_later sessionDate (Some latest) = date_less latest sessionDate"

text \<open>
  Lines 124 to 143: what the callback does to \<open>entry\<close>.  \<open>newDate\<close> is the \<open>Date\<close>
  constructor on a date string and \<open>now\<close> the value of \<open>new Date()\<close> in this call.
\<close>

definition update_entry :: "(string \<Rightarrow> int option) \<Rightarrow> int \<Rightarrow> Session \<Rightarrow> stat \<Rightarrow> stat" where
  "update_entry newDate now session entry =
     (let entry = entry\<lparr>stat_total := stat_total entry + 1\<rparr>;
          statusRaw = toLowerCase (or_lit (s_status session) []);
          sessionDate = newDate (s_session_date session);
          isPast = date_less sessionDate (Some now);
          entry =
            (if includes_js statusRaw ''no show'' \<or> includes_js statusRaw ''noshow''
                \<or> includes_js statusRaw ''late cancel''
             then entry\<lparr>stat_noshow := stat_noshow entry + 1\<rparr>
             else if includes_js statusRaw ''completed'' \<or> (statusRaw = [] \<and> isPast)
             then entry\<lparr>stat_completed := stat_completed entry + 1\<rparr>
             else entry\<lparr>stat_scheduled := stat_scheduled entry + 1\<rparr>)
      in if is_later sessionDate (stat_latestSession entry)
         then entry\<lparr>stat_latestSession := Some sessionDate\<rparr>
         else entry)"

text \<open>
  The callback of \<open>sessions.forEach\<close> (lines 99 to 144).  \<open>entry\<close> is the object
  stored in the map, so its mutation is an update of the map at \<open>key\<close>.  After the
  insertion the key is present; the source asserts so (\<open>statsMap.get(key)!\<close>).
\<close>

definition process_session ::
  "(string \<Rightarrow> int option) \<Rightarrow> int \<Rightarrow> (string \<times> stat) list \<Rightarrow> Session \<Rightarrow> (string \<times> stat) list" where
  "process_session newDate now statsMap session =
     (let name = resolve_name session;
          key = toLowerCase name;
          statsMap = (if map_of statsMap key = None
                      then AList.update key (new_entry session) statsMap
                      else statsMap)
      in case map_of statsMap key of
           Some entry \<Rightarrow> AList.update key (update_entry newDate now session entry) statsMap
         | None \<Rightarrow> statsMap)"

text \<open>\<open>sessions.forEach\<close>: the \<open>i\<close>-th call reads the clock as \<open>clock i\<close>.\<close>

fun process_sessions ::
  "(string \<Rightarrow> int option) \<Rightarrow> (nat \<Rightarrow> int) \<Rightarrow> nat \<Rightarrow> (string \<times> stat) list \<Rightarrow> Session list \<Rightarrow>
   (string \<times> stat) list" where
  "process_sessions newDate clock i statsMap [] = statsMap"
| "process_sessions newDate clock i statsMap (session # sessions) =
     process_sessions newDate clock (i + 1)
       (process_session newDate (clock i) statsMap session) sessions"

definition aggregatedStats ::
  "(string \<Rightarrow> int option) \<Rightarrow> (nat \<Rightarrow> int) \<Rightarrow> Session list \<Rightarrow> Employee list \<Rightarrow> stat list" where
  "aggregatedStats newDate clock sessions employees =
     map snd (process_sessions newDate clock 0 (foldl seed_employee [] employees) sessions)"

section \<open>Notions used in the statements\<close>

text \<open>
  The key under which the roster fallback files a row (lines 127 to 131): none for a
  row whose \<open>employee_name\<close> is missing or empty, else \<open>employee_id || name\<close>.
\<close>

definition row_key :: "session_row \<Rightarrow> ident option" where
  "row_key s =
     (case r_employee_name s of
        Val name \<Rightarrow> if name = [] then None else Some (or_id (r_employee_id s) (Str name))
      | Undefined \<Rightarrow> None
      | Null \<Rightarrow> None)"

text \<open>
  The part of \<open>hasMoreInfo\<close> (line 135) that looks at the row,
  \<open>s.program || s.program_name\<close>, and the program value that the record of a row gets
  (line 145), \<open>s.program || s.program_name || s.Program || s.Program_Name\<close>.  The test
  reads two of the four properties that the record is filled from.
\<close>

definition row_program_test :: "session_row \<Rightarrow> bool" where
  "row_program_test s = truthy (or_js (r_program s) (r_program_name s))"

definition mapped_program :: "session_row \<Rightarrow> string opt" where
  "mapped_program s =
     or_js (or_js (or_js (r_program s) (r_program_name s)) (r_Program s)) (r_Program_Name s)"

text \<open>
  The row from which the code builds the record of a key: the first row with that
  key, unless the record of that row has no program and a later row with the key
  passes the test of line 135; then the first such later row.
\<close>

definition winner :: "ident \<Rightarrow> session_row list \<Rightarrow> session_row option" where
  "winner k rows =
     (case filter (\<lambda>s. row_key s = Some k) rows of
        [] \<Rightarrow> None
      | first # later \<Rightarrow>
          Some (if truthy (mapped_program first) then first
                else (case find row_program_test later of
                        Some s \<Rightarrow> s
                      | None \<Rightarrow> first)))"

text \<open>
  The record a session is counted on: the one stored under the session's key, or
  the fresh one that the callback inserts first when the key is new.
\<close>

definition entry_before :: "(string \<times> stat) list \<Rightarrow> Session \<Rightarrow> stat" where
  "entry_before statsMap session =
     (case map_of statsMap (toLowerCase (resolve_name session)) of
        Some entry \<Rightarrow> entry
      | None \<Rightarrow> new_entry session)"

text \<open>
  By how much the three status counters (completed, no-show, scheduled) differ
  between two records.
\<close>

definition counter_delta :: "stat \<Rightarrow> stat \<Rightarrow> int \<times> int \<times> int" where
  "counter_delta before after =
     (int (stat_completed after) - int (stat_completed before),
      int (stat_noshow after) - int (stat_noshow before),
      int (stat_scheduled after) - int (stat_scheduled before))"

section \<open>Example inputs\<close>

text \<open>Three pages of 1000, 1000 and 400 rows, whatever the table, filter or order.\<close>

definition three_page_source :: "query \<Rightarrow> (nat, unit) response" where
  "three_page_source q =
     (if q_range q = Some (0, 999) then \<lparr>data = Some (replicate 1000 1), error = None\<rparr>
      else if q_range q = Some (1000, 1999) then \<lparr>data = Some (replicate 1000 2), error = None\<rparr>
      else \<lparr>data = Some (replicate 400 3), error = None\<rparr>)"

text \<open>The filter of the roster fallback: \<open>q.not('employee_name', 'is', null)\<close>.\<close>

definition not_null_filter :: "query \<Rightarrow> query" where
  "not_null_filter q = q\<lparr>q_filters := q_filters q @ [NotFilter ''employee_name'' ''is'' None]\<rparr>"

text \<open>A full first page, then a failure that carries the code 42P01.\<close>

definition failing_source :: "query \<Rightarrow> (nat, string) response" where
  "failing_source q =
     (if q_range q = Some (0, 999) then \<lparr>data = Some (replicate 1000 7), error = None\<rparr>
      else \<lparr>data = None, error = Some ''42P01''\<rparr>)"

text \<open>
  A runtime for the plain error objects of the client, which carry a message: no
  operation throws.  And one for an error object without a message that refers to
  itself, on which \<open>JSON.stringify\<close> throws a type error.
\<close>

definition plain_runtime :: "'e js_runtime" where
  "plain_runtime =
     \<lparr>message_of = (\<lambda>err. Inr (Val ''relation does not exist'')),
      is_object = (\<lambda>err. True),
      JSON_stringify = (\<lambda>err. Inr (Val ''{}'')),
      String_of = (\<lambda>err. Inr ''[object Object]'')\<rparr>"

definition cyclic_runtime :: "string js_runtime" where
  "cyclic_runtime =
     \<lparr>message_of = (\<lambda>err. Inr Undefined),
      is_object = (\<lambda>err. True),
      JSON_stringify = (\<lambda>err. Inl ''TypeError: Converting circular structure to JSON''),
      String_of = (\<lambda>err. Inr ''[object Object]'')\<rparr>"

text \<open>A source on which every page is full.\<close>

definition full_source :: "query \<Rightarrow> (unit, unit) response" where
  "full_source q = \<lparr>data = Some (replicate 1000 ()), error = None\<rparr>"

text \<open>
  Rows of the session table for employee 42: one without a program, one with the
  program Coaching, and one that carries the program Coaching in its \<open>Program\<close>
  column only.
\<close>

definition row42_null :: session_row where
  "row42_null =
     \<lparr>r_employee_name = Val ''Dana Lee'', r_employee_id = Val (Str ''42''),
      r_program = Null, r_program_name = Undefined, r_Program = Undefined,
      r_Program_Name = Undefined, r_account_name = Val ''Acme'', r_Account_Name = Undefined,
      r_department = Undefined, r_Department = Undefined, r_email = Undefined,
      r_Email = Undefined, r_email_address = Undefined, r_company_email = Undefined,
      r_Company_Email = Undefined, r_created_at = Val ''2024-02-01''\<rparr>"

definition row42_coaching :: session_row where
  "row42_coaching = row42_null\<lparr>r_program := Val ''Coaching'', r_created_at := Val ''2024-01-01''\<rparr>"

definition row42_alias_only :: session_row where
  "row42_alias_only = row42_null\<lparr>r_Program := Val ''Coaching'', r_created_at := Val ''2024-01-01''\<rparr>"

text \<open>
  Two roster employees, a roster table that holds the first, and a session table
  whose query fails.
\<close>

definition alice :: Employee where
  "alice =
     \<lparr>e_id = Num 1, e_full_name = Val ''Alice Johnson'', e_first_name = Undefined,
      e_last_name = Undefined, e_name = Undefined, e_employee_name = Undefined,
      e_program = Val ''Eng'', e_program_name = Undefined, e_account_name = Undefined,
      e_company = Undefined, e_department = Undefined, e_email = Undefined,
      e_company_email = Undefined, e_avatar_url = Undefined, e_created_at = Undefined\<rparr>"

definition carol :: Employee where
  "carol = alice\<lparr>e_id := Num 2, e_full_name := Val ''Carol Diaz'', e_program := Undefined\<rparr>"

definition roster_source :: "query \<Rightarrow> (Employee, string) response" where
  "roster_source q = \<lparr>data = Some [alice], error = None\<rparr>"

definition no_sessions_source :: "query \<Rightarrow> (session_row, string) response" where
  "no_sessions_source q = \<lparr>data = None, error = Some ''PGRST205''\<rparr>"

text \<open>
  A \<open>Date\<close> constructor that knows two dates (25 October 2023 and 15 January
  2031, as milliseconds since the epoch), and a clock that reads 2 November 2025 and
  advances.
\<close>

definition example_newDate :: "string \<Rightarrow> int option" where
  "example_newDate d =
     (if d = ''2023-10-25'' then Some 1698192000000
      else if d = ''2031-01-15'' then Some 1926201600000
      else None)"

definition example_clock :: "nat \<Rightarrow> int" where
  "example_clock i = 1762041600000 + int i"

text \<open>
  Sessions: one with a flat employee name and status Completed, one cancelled late,
  two with no status (one in the past, one in the future), and one whose joined
  employee carries a full name only.
\<close>

definition session_flat :: Session where
  "session_flat =
     \<lparr>s_id = Num 11, s_session_date = ''2023-10-25'', s_employee_name = Val ''Alice Johnson'',
      s_status = Val ''Completed'', s_program_name = Undefined, s_program = Undefined,
      s_employee_id = Undefined, s_employee_manager = Null\<rparr>"

definition session_late_cancel :: Session where
  "session_late_cancel =
     session_flat\<lparr>s_id := Num 12, s_employee_name := Val ''Bo Chen'',
       s_status := Val ''Client Late Cancel''\<rparr>"

definition session_blank_past :: Session where
  "session_blank_past = session_flat\<lparr>s_id := Num 13, s_status := Null\<rparr>"

definition session_blank_future :: Session where
  "session_blank_future =
     session_flat\<lparr>s_id := Num 14, s_status := Val [], s_session_date := ''2031-01-15''\<rparr>"

definition session_nested_full_name_only :: Session where
  "session_nested_full_name_only =
     \<lparr>s_id = Num 7, s_session_date = ''2023-10-25'', s_employee_name = Val ''Alice Johnson'',
      s_status = Val ''Completed'', s_program_name = Undefined, s_program = Undefined,
      s_employee_id = Undefined,
      s_employee_manager =
        Val \<lparr>m_first_name = Undefined, m_last_name = Undefined,
             m_full_name = Val ''Alice Johnson'', m_program = Undefined,
             m_avatar_url = Undefined\<rparr>\<rparr>"

section \<open>Properties of fetchAllPages\<close>

subsection \<open>One iteration\<close>

lemma fetch_page_issued:
  "fetch_page db t s f ob st = (st', fl) \<Longrightarrow>
     issued st' = issued st @ [build_query t s f ob (page st)]"
  by (auto simp: fetch_page_def Let_def split: option.splits if_splits prod.splits)

lemma fetch_page_Thrown:
  "fetch_page db t s f ob st = (st', Thrown e) \<Longrightarrow>
     error (db (build_query t s f ob (page st))) = Some e"
  by (auto simp: fetch_page_def Let_def split: option.splits if_splits prod.splits)

lemma fetch_page_not_Thrown:
  "fetch_page db t s f ob st = (st', fl) \<Longrightarrow> fl = Break \<or> fl = HasMore b \<Longrightarrow>
     error (db (build_query t s f ob (page st))) = None"
  by (auto simp: fetch_page_def Let_def split: option.splits if_splits prod.splits)

lemma fetch_page_full:
  assumes "db (build_query t s f ob (page st)) = \<lparr>data = Some d, error = None\<rparr>"
    and "length d = pageSize"
  shows "fetch_page db t s f ob st =
           (st\<lparr>issued := issued st @ [build_query t s f ob (page st)],
               allData := allData st @ d, page := page st + 1\<rparr>,
            if page st + 1 > 50 then Break else HasMore True)"
  using assms by (simp add: fetch_page_def Let_def pageSize_def)

lemma fetch_page_short:
  assumes "db (build_query t s f ob (page st)) = \<lparr>data = Some d, error = None\<rparr>"
    and "0 < length d" and "length d < pageSize"
  shows "fetch_page db t s f ob st =
           (st\<lparr>issued := issued st @ [build_query t s f ob (page st)],
               allData := allData st @ d, page := page st + 1\<rparr>,
            if page st + 1 > 50 then Break else HasMore False)"
  using assms by (simp add: fetch_page_def Let_def pageSize_def)

subsection \<open>The requests of a fetch and their responses\<close>

text \<open>
  The loop issues at least one request; every request but the last was answered
  without an error, and the loop's outcome is the last response's error field.
\<close>

lemma fetch_loop_trace:
  "fetch_loop db t s f ob st = (st', r) \<Longrightarrow>
     \<exists>new. issued st' = issued st @ new \<and> new \<noteq> [] \<and>
       list_all (\<lambda>q. error (db q) = None) (butlast new) \<and>
       error (db (last new)) = r"
proof (induction db t s f ob st arbitrary: st' r rule: fetch_loop.induct)
  case (1 db t s f ob st)
  obtain st1 fl where fp: "fetch_page db t s f ob st = (st1, fl)"
    by (cases "fetch_page db t s f ob st")
  note iss = fetch_page_issued [OF fp]
  note thr = fetch_page_Thrown [of db t s f ob st st1]
  note nthr = fetch_page_not_Thrown [OF fp]
  show ?case
  proof (cases fl)
    case (Thrown e)
    with fp "1.prems" have "st' = st1" "r = Some e"
      by (simp_all add: fetch_loop.simps [of db t s f ob st])
    with iss thr fp Thrown show ?thesis by simp
  next
    case Break
    with fp "1.prems" have "st' = st1" "r = None"
      by (simp_all add: fetch_loop.simps [of db t s f ob st])
    moreover from nthr Break have "error (db (build_query t s f ob (page st))) = None"
      by simp
    ultimately show ?thesis using iss by simp
  next
    case (HasMore b)
    from nthr HasMore have noerr: "error (db (build_query t s f ob (page st))) = None"
      by simp
    show ?thesis
    proof (cases b)
      case False
      with fp HasMore "1.prems" have "st' = st1" "r = None"
        by (simp_all add: fetch_loop.simps [of db t s f ob st])
      then show ?thesis using iss noerr by simp
    next
      case True
      with fp HasMore "1.prems" have rec: "fetch_loop db t s f ob st1 = (st', r)"
        by (simp add: fetch_loop.simps [of db t s f ob st])
      from "1.IH" [OF fp [symmetric] HasMore True rec]
      obtain new where n: "issued st' = issued st1 @ new" "new \<noteq> []"
        "list_all (\<lambda>q. error (db q) = None) (butlast new)" "error (db (last new)) = r"
        by blast
      let ?new = "build_query t s f ob (page st) # new"
      have "issued st' = issued st @ ?new" using n iss by simp
      moreover have "list_all (\<lambda>q. error (db q) = None) (butlast ?new)"
        using n noerr by simp
      moreover have "error (db (last ?new)) = r" using n by simp
      ultimately show ?thesis by blast
    qed
  qed
qed

lemma fetchAllPages_trace:
  "\<exists>new. requests (fetchAllPages rt db t s f ob silent) = new \<and> new \<noteq> [] \<and>
     list_all (\<lambda>q. error (db q) = None) (butlast new) \<and>
     (case error (db (last new)) of
        None \<Rightarrow> \<exists>rows. settled (fetchAllPages rt db t s f ob silent) = Inr rows
      | Some e \<Rightarrow>
          settled (fetchAllPages rt db t s f ob silent)
            = Inl (case error_details rt e of Inl thrown \<Rightarrow> thrown | Inr d \<Rightarrow> e))"
proof -
  obtain st' r where fl:
    "fetch_loop db t s f ob \<lparr>allData = [], page = 0, issued = []\<rparr> = (st', r)"
    by (cases "fetch_loop db t s f ob \<lparr>allData = [], page = 0, issued = []\<rparr>")
  from fetch_loop_trace [OF fl] obtain new
    where n: "issued st' = new" "new \<noteq> []"
      "list_all (\<lambda>q. error (db q) = None) (butlast new)" "error (db (last new)) = r"
    by auto
  show ?thesis
  proof (cases r)
    case None
    with fl n show ?thesis by (simp add: fetchAllPages_def)
  next
    case (Some e)
    with fl n show ?thesis
      by (cases "error_details rt e") (simp_all add: fetchAllPages_def)
  qed
qed

subsection \<open>The safety cap\<close>

text \<open>
  The loop is total (its termination is proved with the definition), and a fetch
  issues at most 51 requests: the counter is incremented before it is compared with
  50, so the loop leaves after the request that makes it 51.
\<close>

lemma fetch_loop_request_bound:
  "fetch_loop db t s f ob st = (st', r) \<Longrightarrow>
     length (issued st') \<le> length (issued st) + max 1 (51 - page st)"
proof (induction db t s f ob st arbitrary: st' r rule: fetch_loop.induct)
  case (1 db t s f ob st)
  obtain st1 fl where fp: "fetch_page db t s f ob st = (st1, fl)"
    by (cases "fetch_page db t s f ob st")
  note iss = fetch_page_issued [OF fp]
  show ?case
  proof (cases "fl = HasMore True")
    case False
    with fp "1.prems" have "st' = st1"
      by (cases fl) (auto simp: fetch_loop.simps [of db t s f ob st])
    with iss show ?thesis by simp
  next
    case True
    with fp "1.prems" have rec: "fetch_loop db t s f ob st1 = (st', r)"
      by (simp add: fetch_loop.simps [of db t s f ob st])
    from fp True have pg: "page st1 = page st + 1" "page st1 \<le> 50"
      using fetch_page_HasMore_page [of db t s f ob st st1 True] by simp_all
    from "1.IH" [OF fp [symmetric] True TrueI rec]
    have "length (issued st') \<le> length (issued st1) + max 1 (51 - page st1)" .
    with iss pg show ?thesis by simp
  qed
qed

lemma fetchAllPages_request_bound:
  "length (requests (fetchAllPages rt db t s f ob silent)) \<le> 51"
proof -
  obtain st' r where fl:
    "fetch_loop db t s f ob \<lparr>allData = [], page = 0, issued = []\<rparr> = (st', r)"
    by (cases "fetch_loop db t s f ob \<lparr>allData = [], page = 0, issued = []\<rparr>")
  from fetch_loop_request_bound [OF fl] fl show ?thesis
    by (cases r) (auto simp: fetchAllPages_def split: sum.splits)
qed

lemma fetch_loop_all_full:
  "\<forall>q. \<exists>d. db q = \<lparr>data = Some d, error = None\<rparr> \<and> length d = pageSize \<Longrightarrow>
   page st \<le> 50 \<Longrightarrow> fetch_loop db t s f ob st = (st', r) \<Longrightarrow>
     r = None \<and> length (issued st') = length (issued st) + (51 - page st) \<and>
     length (allData st') = length (allData st) + pageSize * (51 - page st)"
proof (induction db t s f ob st arbitrary: st' r rule: fetch_loop.induct)
  case (1 db t s f ob st)
  from "1.prems"(1) obtain d
    where d: "db (build_query t s f ob (page st)) = \<lparr>data = Some d, error = None\<rparr>"
      "length d = pageSize"
    by blast
  let ?st1 = "st\<lparr>issued := issued st @ [build_query t s f ob (page st)],
               allData := allData st @ d, page := page st + 1\<rparr>"
  note fp = fetch_page_full [of db t s f ob st d, OF d]
  show ?case
  proof (cases "page st + 1 > 50")
    case True
    with fp "1.prems"(3) have "st' = ?st1" "r = None"
      by (simp_all add: fetch_loop.simps [of db t s f ob st])
    moreover from True "1.prems"(2) have "page st = 50" by simp
    ultimately show ?thesis using d by simp
  next
    case False
    with fp have fp': "fetch_page db t s f ob st = (?st1, HasMore True)" by simp
    with "1.prems"(3) have rec: "fetch_loop db t s f ob ?st1 = (st', r)"
      by (simp add: fetch_loop.simps [of db t s f ob st])
    from False have le: "page ?st1 \<le> 50" by simp
    from "1.IH" [OF fp' [symmetric] refl TrueI "1.prems"(1) le rec]
    have "r = None \<and> length (issued st') = length (issued ?st1) + (51 - page ?st1) \<and>
          length (allData st') = length (allData ?st1) + pageSize * (51 - page ?st1)" .
    moreover from False have "51 - page st = Suc (51 - (page st + 1))" by simp
    ultimately show ?thesis using d by simp
  qed
qed

text \<open>
  C2.  The claim is that a fetch issues at most 50 page requests and so returns at
  most 50,000 rows.  On a source whose every page is full, the loop issues 51 requests
  and returns 51,000 rows: the cap is one page later than the claim and the source's
  own warning text say.
\<close>

theorem fetchAllPages_full_source_51_requests:
  "length (requests (fetchAllPages plain_runtime full_source ''session_tracking'' ''*'' (\<lambda>q. q) None False)) = 51
   \<and> map_sum (\<lambda>e. ()) length
       (settled (fetchAllPages plain_runtime full_source ''session_tracking'' ''*'' (\<lambda>q. q) None False))
     = Inr 51000"
proof -
  let ?s0 = "\<lparr>allData = [], page = 0, issued = []\<rparr> :: unit fetch_state"
  obtain st' r where fl:
    "fetch_loop full_source ''session_tracking'' ''*'' (\<lambda>q. q) None ?s0 = (st', r)"
    by (cases "fetch_loop full_source ''session_tracking'' ''*'' (\<lambda>q. q) None ?s0")
  have "\<forall>q. \<exists>d. full_source q = \<lparr>data = Some d, error = None\<rparr> \<and> length d = pageSize"
    by (simp add: pageSize_def full_source_def)
  from fetch_loop_all_full [of full_source ?s0 "''session_tracking''" "''*''" "\<lambda>q. q" None st' r,
      OF this _ fl]
  have "r = None" "length (issued st') = 51" "length (allData st') = 51000"
    by (simp_all add: pageSize_def)
  with fl show ?thesis by (simp add: fetchAllPages_def)
qed

text \<open>
  C6.  When the source answers the first three requests with 1000, 1000 and 400
  rows, the fetch issues exactly these three requests and resolves to the 2400 rows
  in arrival order.  The filter \<open>f\<close>, the table, the columns and the order are
  arbitrary.
\<close>

theorem fetchAllPages_three_pages:
  assumes "db (build_query t s f ob 0) = \<lparr>data = Some p1, error = None\<rparr>"
    and "db (build_query t s f ob 1) = \<lparr>data = Some p2, error = None\<rparr>"
    and "db (build_query t s f ob 2) = \<lparr>data = Some p3, error = None\<rparr>"
    and "length p1 = 1000" and "length p2 = 1000" and "length p3 = 400"
  shows "fetchAllPages rt db t s f ob silent =
           \<lparr>settled = Inr (p1 @ p2 @ p3),
            requests = [build_query t s f ob 0, build_query t s f ob 1, build_query t s f ob 2]\<rparr>
         \<and> length (p1 @ p2 @ p3) = 2400"
proof -
  let ?s0 = "\<lparr>allData = [], page = 0, issued = []\<rparr> :: 'a fetch_state"
  let ?s1 = "\<lparr>allData = p1, page = 1, issued = [build_query t s f ob 0]\<rparr>"
  let ?s2 = "\<lparr>allData = p1 @ p2, page = 2,
              issued = [build_query t s f ob 0, build_query t s f ob 1]\<rparr>"
  let ?s3 = "\<lparr>allData = p1 @ p2 @ p3, page = 3,
              issued = [build_query t s f ob 0, build_query t s f ob 1, build_query t s f ob 2]\<rparr>"
  have 1: "fetch_page db t s f ob ?s0 = (?s1, HasMore True)"
    using fetch_page_full [of db t s f ob ?s0 p1] assms by (simp add: pageSize_def)
  have 2: "fetch_page db t s f ob ?s1 = (?s2, HasMore True)"
    using fetch_page_full [of db t s f ob ?s1 p2] assms by (simp add: pageSize_def)
  have 3: "fetch_page db t s f ob ?s2 = (?s3, HasMore False)"
    using fetch_page_short [of db t s f ob ?s2 p3] assms by (simp add: pageSize_def)
  have "fetch_loop db t s f ob ?s2 = (?s3, None)"
    using 3 by (subst fetch_loop.simps) simp
  with 2 have "fetch_loop db t s f ob ?s1 = (?s3, None)"
    by (subst fetch_loop.simps) simp
  with 1 have "fetch_loop db t s f ob ?s0 = (?s3, None)"
    by (subst fetch_loop.simps) simp
  then show ?thesis using assms by (simp add: fetchAllPages_def)
qed

theorem fetchAllPages_three_pages_witness:
  "three_page_source (build_query ''session_tracking'' ''*'' not_null_filter (Some ''created_at'') 0)
     = \<lparr>data = Some (replicate 1000 1), error = None\<rparr> \<and>
   three_page_source (build_query ''session_tracking'' ''*'' not_null_filter (Some ''created_at'') 1)
     = \<lparr>data = Some (replicate 1000 2), error = None\<rparr> \<and>
   three_page_source (build_query ''session_tracking'' ''*'' not_null_filter (Some ''created_at'') 2)
     = \<lparr>data = Some (replicate 400 3), error = None\<rparr> \<and>
   settled (fetchAllPages plain_runtime three_page_source ''session_tracking'' ''*'' not_null_filter
              (Some ''created_at'') False)
     = Inr (replicate 1000 1 @ replicate 1000 2 @ replicate 400 3) \<and>
   length (requests (fetchAllPages plain_runtime three_page_source ''session_tracking'' ''*'' not_null_filter
              (Some ''created_at'') False)) = 3"
proof -
  let ?q = "build_query ''session_tracking'' ''*'' not_null_filter (Some ''created_at'')"
  have 1: "three_page_source (?q 0) = \<lparr>data = Some (replicate 1000 1), error = None\<rparr>"
    by (simp add: three_page_source_def build_query_def pageSize_def)
  have 2: "three_page_source (?q 1) = \<lparr>data = Some (replicate 1000 2), error = None\<rparr>"
    by (simp add: three_page_source_def build_query_def pageSize_def)
  have 3: "three_page_source (?q 2) = \<lparr>data = Some (replicate 400 3), error = None\<rparr>"
    by (simp add: three_page_source_def build_query_def pageSize_def)
  from fetchAllPages_three_pages [OF 1 2 3, of plain_runtime False] 1 2 3
  show ?thesis by simp
qed

lemma fetchAllPages_failed_request:
  assumes q: "q \<in> set (requests (fetchAllPages rt db t s f ob silent))"
    and e: "error (db q) = Some e"
  shows "q = last (requests (fetchAllPages rt db t s f ob silent))"
    and "settled (fetchAllPages rt db t s f ob silent)
           = Inl (case error_details rt e of Inl thrown \<Rightarrow> thrown | Inr d \<Rightarrow> e)"
proof -
  let ?run = "fetchAllPages rt db t s f ob silent"
  from fetchAllPages_trace [of rt db t s f ob silent]
  have ne: "requests ?run \<noteq> []"
    and ok: "list_all (\<lambda>q. error (db q) = None) (butlast (requests ?run))"
    and lst: "case error (db (last (requests ?run))) of
                None \<Rightarrow> \<exists>rows. settled ?run = Inr rows
              | Some e \<Rightarrow>
                  settled ?run = Inl (case error_details rt e of Inl thrown \<Rightarrow> thrown | Inr d \<Rightarrow> e)"
    by auto
  from ok e have "q \<notin> set (butlast (requests ?run))"
    by (auto simp: list_all_iff)
  moreover from ne
  have "set (requests ?run) = insert (last (requests ?run)) (set (butlast (requests ?run)))"
    by (metis append_butlast_last_id list.simps(15) rotate1.simps(2) set_rotate1)
  ultimately show ql: "q = last (requests ?run)"
    using q by simp
  with lst e show "settled ?run
      = Inl (case error_details rt e of Inl thrown \<Rightarrow> thrown | Inr d \<Rightarrow> e)"
    by simp
qed

text \<open>
  When evaluating the log text of the error throws, the rejection value is the value
  thrown there, and the error of the response is lost.
\<close>

lemma fetchAllPages_details_throw:
  assumes "q \<in> set (requests (fetchAllPages rt db t s f ob silent))"
    and "error (db q) = Some e"
    and "error_details rt e = Inl thrown"
  shows "settled (fetchAllPages rt db t s f ob silent) = Inl thrown"
  using fetchAllPages_failed_request(2) [OF assms(1,2)] assms(3) by simp

lemma fetchAllPages_cyclic_error:
  "settled (fetchAllPages cyclic_runtime failing_source ''employee_manager'' ''*'' (\<lambda>q. q) None True)
     = Inl ''TypeError: Converting circular structure to JSON''"
  by (simp add: fetchAllPages_def fetch_loop.simps fetch_page_def failing_source_def
        build_query_def pageSize_def from_select_def error_details_def cyclic_runtime_def)

text \<open>
  C7.  A request of the fetch that is answered with an error \<open>e\<close> is the last
  request issued, and, provided that evaluating the log text of \<open>e\<close> in the
  \<open>catch\<close> block yields a value (as it does for every error object that carries a
  message or can be serialised), the fetch rejects with \<open>e\<close> itself: no rows are
  returned and the value is the response's error field, unchanged.  Conversely a
  rejection value is the error field of the last response, unless it is what
  evaluating that error's log text threw.
\<close>

theorem fetchAllPages_rethrows_original_error:
  "(\<forall>q \<in> set (requests (fetchAllPages rt db t s f ob silent)).
      \<forall>e details. error (db q) = Some e \<and> error_details rt e = Inr details \<longrightarrow>
        settled (fetchAllPages rt db t s f ob silent) = Inl e \<and>
        q = last (requests (fetchAllPages rt db t s f ob silent))) \<and>
   (\<forall>e. settled (fetchAllPages rt db t s f ob silent) = Inl e \<longrightarrow>
        (\<exists>e0. error (db (last (requests (fetchAllPages rt db t s f ob silent)))) = Some e0 \<and>
              (e0 = e \<or> error_details rt e0 = Inl e)))"
proof -
  let ?run = "fetchAllPages rt db t s f ob silent"
  have a: "settled ?run = Inl e \<and> q = last (requests ?run)"
    if "q \<in> set (requests ?run)" and "error (db q) = Some e \<and> error_details rt e = Inr details"
    for q e details
    using fetchAllPages_failed_request [of q rt db t s f ob silent e] that by simp
  have b: "\<exists>e0. error (db (last (requests ?run))) = Some e0 \<and>
              (e0 = e \<or> error_details rt e0 = Inl e)"
    if s: "settled ?run = Inl e" for e
  proof (cases "error (db (last (requests ?run)))")
    case None
    with fetchAllPages_trace [of rt db t s f ob silent] s show ?thesis by auto
  next
    case (Some e0)
    with fetchAllPages_trace [of rt db t s f ob silent]
    have "settled ?run = Inl (case error_details rt e0 of Inl thrown \<Rightarrow> thrown | Inr d \<Rightarrow> e0)"
      by auto
    with s Some show ?thesis by (cases "error_details rt e0") auto
  qed
  from a b show ?thesis by blast
qed

theorem fetchAllPages_rethrows_original_error_witness:
  "build_query ''employee_manager'' ''*'' (\<lambda>q. q) None 1
     \<in> set (requests (fetchAllPages plain_runtime failing_source ''employee_manager'' ''*''
                (\<lambda>q. q) None True)) \<and>
   error (failing_source (build_query ''employee_manager'' ''*'' (\<lambda>q. q) None 1)) = Some ''42P01'' \<and>
   error_details plain_runtime ''42P01'' = Inr (Val ''relation does not exist'') \<and>
   settled (fetchAllPages plain_runtime failing_source ''employee_manager'' ''*'' (\<lambda>q. q) None True)
     = Inl ''42P01''"
proof -
  let ?run = "fetchAllPages plain_runtime failing_source ''employee_manager'' ''*'' (\<lambda>q. q) None True"
  let ?q = "build_query ''employee_manager'' ''*'' (\<lambda>q. q) None"
  have req: "requests ?run = [?q 0, ?q 1]"
    by (simp add: fetchAllPages_def fetch_loop.simps fetch_page_def failing_source_def
          build_query_def pageSize_def from_select_def error_details_def plain_runtime_def)
  have err: "error (failing_source (?q 1)) = Some ''42P01''"
    by (simp add: failing_source_def build_query_def pageSize_def)
  have det: "error_details plain_runtime ''42P01'' = Inr (Val ''relation does not exist'')"
    by (simp add: error_details_def plain_runtime_def)
  from req have mem: "?q 1 \<in> set (requests ?run)" by simp
  from fetchAllPages_rethrows_original_error [of plain_runtime failing_source
      "''employee_manager''" "''*''" "\<lambda>q. q" None True, THEN conjunct1, rule_format,
      OF mem conjI [OF err det]]
  have "settled ?run = Inl ''42P01''" by (rule conjunct1)
  with mem err det show ?thesis by (intro conjI)
qed

section \<open>Properties of getEmployeeRoster\<close>

subsection \<open>One row of the fallback\<close>

lemma roster_step_no_key:
  "row_key s = None \<Longrightarrow> roster_step rnd st s = st"
  by (auto simp: row_key_def roster_step_def split: opt.splits if_splits)

lemma roster_step_keys:
  "row_key s = Some k \<Longrightarrow>
     fst ` set (uniqueEmployees (roster_step rnd st s)) = insert k (fst ` set (uniqueEmployees st))"
  by (auto simp: row_key_def roster_step_def Let_def dom_update map_of_eq_None_iff
        split: opt.splits if_splits dest: map_of_SomeD weak_map_of_SomeI)

lemma roster_step_distinct:
  "distinct (map fst (uniqueEmployees st)) \<Longrightarrow>
     distinct (map fst (uniqueEmployees (roster_step rnd st s)))"
  by (auto simp: roster_step_def Let_def distinct_update split: opt.splits)

lemma roster_step_lookup:
  assumes "r_employee_name s = Val name" and "name \<noteq> []"
  shows "map_of (uniqueEmployees (roster_step rnd st s)) (or_id (r_employee_id s) (Str name)) =
           (case map_of (uniqueEmployees st) (or_id (r_employee_id s) (Str name)) of
              None \<Rightarrow> Some (employee_of_row s name (rnd (draws st)))
            | Some stored \<Rightarrow>
                Some (if \<not> truthy (e_program stored)
                         \<and> truthy (or_js (r_program s) (r_program_name s))
                      then employee_of_row s name (rnd (draws st))
                      else stored))"
  using assms by (auto simp: roster_step_def Let_def update_conv' split: option.splits)

lemma roster_step_other:
  "row_key s = Some k \<Longrightarrow> k' \<noteq> k \<Longrightarrow>
     map_of (uniqueEmployees (roster_step rnd st s)) k' = map_of (uniqueEmployees st) k'"
  by (auto simp: row_key_def roster_step_def Let_def update_conv' split: opt.splits if_splits)

subsection \<open>All rows\<close>

lemma foldl_roster_step_distinct:
  "distinct (map fst (uniqueEmployees st)) \<Longrightarrow>
     distinct (map fst (uniqueEmployees (foldl (roster_step rnd) st rows)))"
  by (induction rows arbitrary: st) (simp_all add: roster_step_distinct)

lemma foldl_roster_step_keys:
  "fst ` set (uniqueEmployees (foldl (roster_step rnd) st rows)) =
     fst ` set (uniqueEmployees st) \<union> set (List.map_filter row_key rows)"
proof (induction rows arbitrary: st)
  case Nil
  show ?case by (simp add: List.map_filter_simps)
next
  case (Cons s rows)
  show ?case
  proof (cases "row_key s")
    case None
    then show ?thesis using Cons [of st] by (simp add: roster_step_no_key List.map_filter_simps)
  next
    case (Some k)
    then show ?thesis using Cons [of "roster_step rnd st s"]
      by (simp add: roster_step_keys List.map_filter_simps)
  qed
qed

lemma two_rows_same_id:
  assumes "r_employee_id r1 = Val (Str ''42'')" and "r_employee_id r2 = Val (Str ''42'')"
    and "r_employee_name r1 = Val n1" and "n1 \<noteq> []"
    and "r_employee_name r2 = Val n2" and "n2 \<noteq> []"
    and "r_program r1 = Null" and "\<not> truthy (r_program_name r1)"
    and "\<not> truthy (r_Program r1)" and "\<not> truthy (r_Program_Name r1)"
    and "r_program r2 = Val ''Coaching''"
  shows "uniqueEmployees (extract_employees rnd [r1, r2])
           = [(Str ''42'', employee_of_row r2 n2 (rnd 0))]"
    and "e_id (employee_of_row r2 n2 (rnd 0)) = Str ''42''"
    and "e_program (employee_of_row r2 n2 (rnd 0)) = Val ''Coaching''"
  using assms
  by (simp_all add: extract_employees_def roster_step_def Let_def employee_of_row_def or_js_def)

subsection \<open>Which row a key ends up with\<close>

lemma e_program_employee_of_row:
  "e_program (employee_of_row s name random) = mapped_program s"
  by (simp add: employee_of_row_def mapped_program_def)

lemma row_program_test_mapped: "row_program_test s \<Longrightarrow> truthy (mapped_program s)"
  by (simp add: row_program_test_def mapped_program_def or_js_def)

lemma find_append:
  "find P (xs @ ys) = (case find P xs of Some x \<Rightarrow> Some x | None \<Rightarrow> find P ys)"
  by (induction xs) auto

lemma winner_snoc_other:
  "row_key s \<noteq> Some k \<Longrightarrow> winner k (rows @ [s]) = winner k rows"
  by (simp add: winner_def)

lemma winner_snoc_same:
  assumes k: "row_key s = Some k"
  shows "winner k (rows @ [s]) =
       (case winner k rows of
          None \<Rightarrow> Some s
        | Some w \<Rightarrow> Some (if \<not> truthy (mapped_program w) \<and> row_program_test s then s else w))"
proof (cases "filter (\<lambda>s. row_key s = Some k) rows")
  case Nil
  with k show ?thesis by (simp add: winner_def)
next
  case (Cons first later)
  show ?thesis
  proof (cases "truthy (mapped_program first)")
    case True
    with Cons k show ?thesis by (simp add: winner_def)
  next
    case False
    show ?thesis
    proof (cases "find row_program_test later")
      case None
      with Cons k False show ?thesis by (simp add: winner_def find_append)
    next
      case (Some x)
      then have "row_program_test x" by (auto simp: find_Some_iff)
      then have "truthy (mapped_program x)" by (rule row_program_test_mapped)
      with Cons k False Some show ?thesis by (simp add: winner_def find_append)
    qed
  qed
qed

lemma extract_employees_snoc:
  "extract_employees rnd (rows @ [s]) = roster_step rnd (extract_employees rnd rows) s"
  by (simp add: extract_employees_def)

lemma row_key_Some:
  "row_key s = Some k \<Longrightarrow>
     \<exists>name. r_employee_name s = Val name \<and> name \<noteq> [] \<and> k = or_id (r_employee_id s) (Str name)"
  by (auto simp: row_key_def split: opt.splits if_splits)

lemma extract_employees_winner:
  "(winner k rows = None \<and> map_of (uniqueEmployees (extract_employees rnd rows)) k = None) \<or>
   (\<exists>s name n. winner k rows = Some s \<and> r_employee_name s = Val name \<and>
        map_of (uniqueEmployees (extract_employees rnd rows)) k
          = Some (employee_of_row s name (rnd n)))"
proof (induction rows rule: rev_induct)
  case Nil
  show ?case by (simp add: winner_def extract_employees_def)
next
  case (snoc s rows)
  let ?st = "extract_employees rnd rows"
  show ?case
  proof (cases "row_key s = Some k")
    case False
    have "map_of (uniqueEmployees (roster_step rnd ?st s)) k = map_of (uniqueEmployees ?st) k"
    proof (cases "row_key s")
      case None
      then show ?thesis by (simp add: roster_step_no_key)
    next
      case (Some k')
      with False show ?thesis by (simp add: roster_step_other)
    qed
    with False snoc show ?thesis
      by (simp add: winner_snoc_other extract_employees_snoc)
  next
    case True
    then obtain name where nm: "r_employee_name s = Val name" "name \<noteq> []"
      "k = or_id (r_employee_id s) (Str name)"
      by (blast dest: row_key_Some)
    note look = roster_step_lookup [OF nm(1,2), of rnd ?st, folded nm(3)]
    have "(winner k rows = None \<and> map_of (uniqueEmployees ?st) k = None) \<or>
          (\<exists>w wname n. winner k rows = Some w \<and> r_employee_name w = Val wname \<and>
             map_of (uniqueEmployees ?st) k = Some (employee_of_row w wname (rnd n)))"
      by (rule snoc)
    then consider
      (none) "winner k rows = None" "map_of (uniqueEmployees ?st) k = None"
      | (some) w wname n where "winner k rows = Some w" "r_employee_name w = Val wname"
          "map_of (uniqueEmployees ?st) k = Some (employee_of_row w wname (rnd n))"
      by (elim disjE conjE exE)
    then show ?thesis
    proof cases
      case none
      with look True nm show ?thesis
        by (auto simp: winner_snoc_same extract_employees_snoc)
    next
      case some
      show ?thesis
      proof (cases "\<not> truthy (mapped_program w) \<and> row_program_test s")
        case True
        with look some have "map_of (uniqueEmployees (roster_step rnd ?st s)) k
            = Some (employee_of_row s name (rnd (draws ?st)))"
          by (simp add: e_program_employee_of_row row_program_test_def)
        moreover from True some \<open>row_key s = Some k\<close>
        have "winner k (rows @ [s]) = Some s" by (simp add: winner_snoc_same)
        ultimately show ?thesis using nm by (auto simp: extract_employees_snoc)
      next
        case False
        with look some have "map_of (uniqueEmployees (roster_step rnd ?st s)) k
            = Some (employee_of_row w wname (rnd n))"
          by (auto simp: e_program_employee_of_row row_program_test_def)
        moreover from False some \<open>row_key s = Some k\<close>
        have "winner k (rows @ [s]) = Some w" by (auto simp: winner_snoc_same)
        ultimately show ?thesis using some by (auto simp: extract_employees_snoc)
      qed
    qed
  qed
qed

text \<open>
  What the fallback does.  It keeps one record per key, the key of a row being its
  employee id when that is truthy and its employee name otherwise (rows without a name
  are skipped).  A row whose key is already stored replaces the stored record if and
  only if the stored record's \<open>program\<close> is falsy and the row's \<open>program\<close> or
  \<open>program_name\<close> is truthy; otherwise the stored, first-seen record stays.  So the
  record of a key is built from the first row with that key, or, when that row gave no
  program, from the first later row that passes the test of line 135.  Two rows with
  employee id 42, the first without a program and the second with program Coaching in
  its \<open>program\<close> property, give one record, with id 42 and program Coaching.
\<close>

lemma roster_fallback_dedup:
  "distinct (map fst (uniqueEmployees (extract_employees rnd rows))) \<and>
   set (map fst (uniqueEmployees (extract_employees rnd rows))) = set (List.map_filter row_key rows) \<and>
   (\<forall>st s name.
      r_employee_name s = Val name \<and> name \<noteq> [] \<longrightarrow>
      map_of (uniqueEmployees (roster_step rnd st s)) (or_id (r_employee_id s) (Str name)) =
        (case map_of (uniqueEmployees st) (or_id (r_employee_id s) (Str name)) of
           None \<Rightarrow> Some (employee_of_row s name (rnd (draws st)))
         | Some stored \<Rightarrow>
             Some (if \<not> truthy (e_program stored)
                      \<and> truthy (or_js (r_program s) (r_program_name s))
                   then employee_of_row s name (rnd (draws st))
                   else stored))) \<and>
   (\<forall>k. (winner k rows = None \<and>
          map_of (uniqueEmployees (extract_employees rnd rows)) k = None) \<or>
        (\<exists>s name n. winner k rows = Some s \<and> r_employee_name s = Val name \<and>
           map_of (uniqueEmployees (extract_employees rnd rows)) k
             = Some (employee_of_row s name (rnd n)))) \<and>
   (\<forall>r1 r2 n1 n2.
      r_employee_id r1 = Val (Str ''42'') \<and> r_employee_id r2 = Val (Str ''42'') \<and>
      r_employee_name r1 = Val n1 \<and> n1 \<noteq> [] \<and> r_employee_name r2 = Val n2 \<and> n2 \<noteq> [] \<and>
      r_program r1 = Null \<and> \<not> truthy (r_program_name r1) \<and> \<not> truthy (r_Program r1) \<and>
      \<not> truthy (r_Program_Name r1) \<and> r_program r2 = Val ''Coaching'' \<longrightarrow>
      (\<exists>emp. map snd (uniqueEmployees (extract_employees rnd [r1, r2])) = [emp] \<and>
             e_id emp = Str ''42'' \<and> e_program emp = Val ''Coaching'' \<and>
             e_full_name emp = Val n2))"
proof -
  have a: "distinct (map fst (uniqueEmployees (extract_employees rnd rows)))"
    unfolding extract_employees_def by (rule foldl_roster_step_distinct) simp
  have b: "set (map fst (uniqueEmployees (extract_employees rnd rows)))
             = set (List.map_filter row_key rows)"
    using foldl_roster_step_keys [of rnd "\<lparr>uniqueEmployees = [], draws = 0\<rparr>" rows]
    by (simp add: extract_employees_def)
  have d: "\<exists>emp. map snd (uniqueEmployees (extract_employees rnd [r1, r2])) = [emp] \<and>
             e_id emp = Str ''42'' \<and> e_program emp = Val ''Coaching'' \<and>
             e_full_name emp = Val n2"
    if "r_employee_id r1 = Val (Str ''42'') \<and> r_employee_id r2 = Val (Str ''42'') \<and>
      r_employee_name r1 = Val n1 \<and> n1 \<noteq> [] \<and> r_employee_name r2 = Val n2 \<and> n2 \<noteq> [] \<and>
      r_program r1 = Null \<and> \<not> truthy (r_program_name r1) \<and> \<not> truthy (r_Program r1) \<and>
      \<not> truthy (r_Program_Name r1) \<and> r_program r2 = Val ''Coaching''" for r1 r2 n1 n2
    using that two_rows_same_id [of r1 r2 n1 n2 rnd]
    by (simp add: employee_of_row_def)
  have c: "map_of (uniqueEmployees (roster_step rnd st s)) (or_id (r_employee_id s) (Str name)) =
        (case map_of (uniqueEmployees st) (or_id (r_employee_id s) (Str name)) of
           None \<Rightarrow> Some (employee_of_row s name (rnd (draws st)))
         | Some stored \<Rightarrow>
             Some (if \<not> truthy (e_program stored)
                      \<and> truthy (or_js (r_program s) (r_program_name s))
                   then employee_of_row s name (rnd (draws st))
                   else stored))"
    if "r_employee_name s = Val name \<and> name \<noteq> []" for st s name
    using that by (simp add: roster_step_lookup)
  have w: "(winner k rows = None \<and>
          map_of (uniqueEmployees (extract_employees rnd rows)) k = None) \<or>
        (\<exists>s name n. winner k rows = Some s \<and> r_employee_name s = Val name \<and>
           map_of (uniqueEmployees (extract_employees rnd rows)) k
             = Some (employee_of_row s name (rnd n)))" for k
    by (rule extract_employees_winner)
  show ?thesis
  proof (intro conjI allI impI)
    show "distinct (map fst (uniqueEmployees (extract_employees rnd rows)))" by (rule a)
    show "set (map fst (uniqueEmployees (extract_employees rnd rows)))
            = set (List.map_filter row_key rows)" by (rule b)
  qed (use c w d in blast)+
qed

lemma roster_fallback_dedup_example:
  "r_employee_id row42_null = Val (Str ''42'') \<and> r_program row42_null = Null \<and>
   r_employee_id row42_coaching = Val (Str ''42'') \<and> r_program row42_coaching = Val ''Coaching'' \<and>
   map e_id (map snd (uniqueEmployees (extract_employees (\<lambda>n. ''k3x9'') [row42_null, row42_coaching])))
     = [Str ''42''] \<and>
   map e_program (map snd (uniqueEmployees (extract_employees (\<lambda>n. ''k3x9'') [row42_null, row42_coaching])))
     = [Val ''Coaching'']"
proof -
  have h: "r_employee_id row42_null = Val (Str ''42'') \<and>
      r_employee_id row42_coaching = Val (Str ''42'') \<and>
      r_employee_name row42_null = Val ''Dana Lee'' \<and> ''Dana Lee'' \<noteq> [] \<and>
      r_employee_name row42_coaching = Val ''Dana Lee'' \<and> ''Dana Lee'' \<noteq> [] \<and>
      r_program row42_null = Null \<and> \<not> truthy (r_program_name row42_null) \<and>
      \<not> truthy (r_Program row42_null) \<and> \<not> truthy (r_Program_Name row42_null) \<and>
      r_program row42_coaching = Val ''Coaching''"
    by (simp add: row42_null_def row42_coaching_def)
  from roster_fallback_dedup [of "\<lambda>n. ''k3x9''" "[]", THEN conjunct2, THEN conjunct2,
      THEN conjunct2, THEN conjunct2, rule_format, of row42_null row42_coaching "''Dana Lee''" "''Dana Lee''",
      OF h]
  obtain emp where "map snd (uniqueEmployees (extract_employees (\<lambda>n. ''k3x9'') [row42_null, row42_coaching])) = [emp]"
    "e_id emp = Str ''42''" "e_program emp = Val ''Coaching''"
    by (elim exE conjE)
  with h show ?thesis by simp
qed

text \<open>
  C5.  The claim is that a later row replaces the stored record of its key if and only
  if the stored record lacks a program value and the later row supplies one.  The
  program value of a row is what line 145 writes into its record, read from
  \<open>program\<close>, \<open>program_name\<close>, \<open>Program\<close> or \<open>Program_Name\<close>; the test of
  line 135 reads the first two only.  For two rows with employee id 42, the first
  without a program and the second with the program Coaching in its \<open>Program\<close>
  column, the second row does supply a program value (its own record would carry
  Coaching), the stored record lacks one, and yet the stored record is not replaced:
  the one record for id 42 has no program.
\<close>

theorem roster_fallback_alias_only_not_taken:
  "mapped_program row42_alias_only = Val ''Coaching'' \<and>
   e_program (employee_of_row row42_alias_only ''Dana Lee'' ''k3x9'') = Val ''Coaching'' \<and>
   e_program (employee_of_row row42_null ''Dana Lee'' ''k3x9'') = Undefined \<and>
   map e_id (map snd (uniqueEmployees
       (extract_employees (\<lambda>n. ''k3x9'') [row42_null, row42_alias_only]))) = [Str ''42''] \<and>
   map e_program (map snd (uniqueEmployees
       (extract_employees (\<lambda>n. ''k3x9'') [row42_null, row42_alias_only]))) = [Undefined]"
  by (simp add: mapped_program_def employee_of_row_def extract_employees_def roster_step_def
        Let_def or_js_def row42_null_def row42_alias_only_def)

text \<open>
  C10.  When the fetch of the roster table resolves to at least one row,
  \<open>getEmployeeRoster\<close> resolves to exactly these rows, whatever the session table
  holds: the fallback and its transformations are not run.
\<close>

theorem getEmployeeRoster_preferred_path:
  assumes "settled (fetchAllPages rt db_roster ''employee_manager'' ''*'' (\<lambda>q. q) None True) = Inr rows"
    and "rows \<noteq> []"
  shows "getEmployeeRoster rt db_roster db_sessions rnd = Inr rows"
  using assms by (simp add: getEmployeeRoster_def)

theorem getEmployeeRoster_preferred_path_witness:
  "settled (fetchAllPages plain_runtime roster_source ''employee_manager'' ''*'' (\<lambda>q. q) None True) = Inr [alice] \<and>
   [alice] \<noteq> [] \<and>
   getEmployeeRoster plain_runtime roster_source no_sessions_source (\<lambda>n. ''k3x9'') = Inr [alice]"
proof -
  have s: "settled (fetchAllPages plain_runtime roster_source ''employee_manager'' ''*'' (\<lambda>q. q) None True)
             = Inr [alice]"
    by (simp add: fetchAllPages_def fetch_loop.simps fetch_page_def roster_source_def pageSize_def)
  from getEmployeeRoster_preferred_path [OF s, of no_sessions_source "\<lambda>n. ''k3x9''"] s
  show ?thesis by simp
qed

section \<open>Properties of the aggregation\<close>

subsection \<open>Strings\<close>

lemma starts_with_iff: "starts_with s sub \<longleftrightarrow> (\<exists>ss. s = sub @ ss)"
  by (induction s sub rule: starts_with.induct) auto

lemma includes_js_iff: "includes_js s sub \<longleftrightarrow> (\<exists>ps ss. s = ps @ sub @ ss)"
proof (induction s)
  case Nil
  show ?case by auto
next
  case (Cons x xs)
  show ?case
  proof
    assume "includes_js (x # xs) sub"
    then consider "starts_with (x # xs) sub" | "includes_js xs sub" by auto
    then show "\<exists>ps ss. x # xs = ps @ sub @ ss"
    proof cases
      case 1
      then obtain ss where "x # xs = sub @ ss" by (auto simp: starts_with_iff)
      then have "x # xs = [] @ sub @ ss" by simp
      then show ?thesis by blast
    next
      case 2
      with Cons obtain ps ss where "xs = ps @ sub @ ss" by blast
      then have "x # xs = (x # ps) @ sub @ ss" by simp
      then show ?thesis by blast
    qed
  next
    assume "\<exists>ps ss. x # xs = ps @ sub @ ss"
    then obtain ps ss where e: "x # xs = ps @ sub @ ss" by blast
    show "includes_js (x # xs) sub"
    proof (cases ps)
      case Nil
      with e have "starts_with (x # xs) sub" by (auto simp: starts_with_iff)
      then show ?thesis by simp
    next
      case (Cons p ps')
      with e have "xs = ps' @ sub @ ss" by simp
      with Cons.IH have "includes_js xs sub" by blast
      then show ?thesis by simp
    qed
  qed
qed

lemma includes_js_toLowerCase:
  "toLowerCase mid = sub \<Longrightarrow> includes_js (toLowerCase (pre @ mid @ post)) sub"
  unfolding includes_js_iff toLowerCase_def by (metis map_append)

subsection \<open>Resolving the employee name of a session\<close>

lemma resolve_name_first_name:
  "s_employee_manager session = Val emp \<Longrightarrow> m_first_name emp = Val first \<Longrightarrow> first \<noteq> [] \<Longrightarrow>
     resolve_name session = trim_js (first @ '' '' @ or_lit (m_last_name emp) [])"
  by (simp add: resolve_name_def or_js_def)

lemma resolve_name_flat:
  "s_employee_manager session = Null \<or> s_employee_manager session = Undefined \<or>
   (\<exists>emp. s_employee_manager session = Val emp \<and> \<not> truthy (m_full_name emp)
           \<and> \<not> truthy (m_first_name emp)) \<Longrightarrow>
     resolve_name session = or_lit (s_employee_name session) ''Unknown Employee''"
  by (auto simp: resolve_name_def or_js_def flat_name_def)

lemma resolve_name_full_name_only:
  "s_employee_manager session = Val emp \<Longrightarrow> truthy (m_full_name emp) \<Longrightarrow>
     m_first_name emp = Undefined \<Longrightarrow> \<not> truthy (m_last_name emp) \<Longrightarrow>
     resolve_name session = ''undefined''"
  by (cases "m_last_name emp")
     (simp_all add: resolve_name_def or_js_def trim_js_def is_space_def)

text \<open>
  C3.  The claim is that a nested reference that carries only a full name yields that
  full name.  The test of the conditional reads \<open>full_name\<close>, but the branch it
  selects renders \<open>first_name\<close> and \<open>last_name\<close> only: for a session whose
  joined employee has the full name Alice Johnson and no first name, the resolved name
  is the text undefined.
\<close>

theorem resolve_name_nested_full_name_only:
  "resolve_name session_nested_full_name_only = ''undefined''"
  by (simp add: resolve_name_def session_nested_full_name_only_def or_js_def trim_js_def
        is_space_def)

subsection \<open>One session\<close>

lemma update_entry_total:
  "stat_total (update_entry nd now session entry) = stat_total entry + 1"
  by (simp add: update_entry_def Let_def)

lemma update_entry_name:
  "stat_name (update_entry nd now session entry) = stat_name entry"
  by (simp add: update_entry_def Let_def)

lemma update_entry_one_counter:
  "(stat_noshow (update_entry nd now session entry) = stat_noshow entry + 1 \<and>
    stat_completed (update_entry nd now session entry) = stat_completed entry \<and>
    stat_scheduled (update_entry nd now session entry) = stat_scheduled entry) \<or>
   (stat_noshow (update_entry nd now session entry) = stat_noshow entry \<and>
    stat_completed (update_entry nd now session entry) = stat_completed entry + 1 \<and>
    stat_scheduled (update_entry nd now session entry) = stat_scheduled entry) \<or>
   (stat_noshow (update_entry nd now session entry) = stat_noshow entry \<and>
    stat_completed (update_entry nd now session entry) = stat_completed entry \<and>
    stat_scheduled (update_entry nd now session entry) = stat_scheduled entry + 1)"
  by (simp add: update_entry_def Let_def)

lemma update_entry_sum:
  "stat_completed (update_entry nd now session entry)
     + stat_noshow (update_entry nd now session entry)
     + stat_scheduled (update_entry nd now session entry)
   = stat_completed entry + stat_noshow entry + stat_scheduled entry + 1"
  using update_entry_one_counter [of nd now session entry] by auto

lemma counter_delta_update_entry:
  "counter_delta entry (update_entry nd now session entry) =
     (let statusRaw = toLowerCase (or_lit (s_status session) [])
      in if includes_js statusRaw ''no show'' \<or> includes_js statusRaw ''noshow''
            \<or> includes_js statusRaw ''late cancel''
         then (0, 1, 0)
         else if includes_js statusRaw ''completed''
                 \<or> (statusRaw = [] \<and> date_less (nd (s_session_date session)) (Some now))
         then (1, 0, 0)
         else (0, 0, 1))"
  by (simp add: counter_delta_def update_entry_def Let_def)

lemma counter_delta_cases:
  "counter_delta entry (update_entry nd now session entry) = (1, 0, 0) \<or>
   counter_delta entry (update_entry nd now session entry) = (0, 1, 0) \<or>
   counter_delta entry (update_entry nd now session entry) = (0, 0, 1)"
  by (simp add: counter_delta_update_entry Let_def)

lemma process_session_lookup:
  "map_of (process_session nd now m session) (toLowerCase (resolve_name session))
     = Some (update_entry nd now session (entry_before m session))"
  by (cases "map_of m (toLowerCase (resolve_name session))")
     (simp_all add: process_session_def entry_before_def Let_def update_conv')

lemma process_session_other:
  "k \<noteq> toLowerCase (resolve_name session) \<Longrightarrow>
     map_of (process_session nd now m session) k = map_of m k"
  by (cases "map_of m (toLowerCase (resolve_name session))")
     (simp_all add: process_session_def Let_def update_conv')

lemma process_session_distinct:
  "distinct (map fst m) \<Longrightarrow> distinct (map fst (process_session nd now m session))"
  by (cases "map_of m (toLowerCase (resolve_name session))")
     (simp_all add: process_session_def Let_def update_conv' distinct_update)

lemma process_sessions_distinct:
  "distinct (map fst m) \<Longrightarrow> distinct (map fst (process_sessions nd clock i m sessions))"
  by (induction sessions arbitrary: m i) (simp_all add: process_session_distinct)

lemma process_sessions_other:
  "list_all (\<lambda>session. k \<noteq> toLowerCase (resolve_name session)) sessions \<Longrightarrow>
     map_of (process_sessions nd clock i m sessions) k = map_of m k"
  by (induction sessions arbitrary: m i) (simp_all add: process_session_other)

subsection \<open>Well-formed maps\<close>

text \<open>
  Every record of the map has its three status counters add up to its total, and is
  stored under the lower-cased form of its name.
\<close>

lemma new_entry_fields:
  "stat_completed (new_entry session) = 0" "stat_noshow (new_entry session) = 0"
  "stat_scheduled (new_entry session) = 0" "stat_total (new_entry session) = 0"
  "stat_name (new_entry session) = resolve_name session"
  by (simp_all add: new_entry_def)

lemma entry_before_inv:
  assumes "\<forall>k r. map_of m k = Some r \<longrightarrow>
             stat_completed r + stat_noshow r + stat_scheduled r = stat_total r \<and>
             toLowerCase (stat_name r) = k"
  shows "stat_completed (entry_before m session) + stat_noshow (entry_before m session)
           + stat_scheduled (entry_before m session) = stat_total (entry_before m session)
         \<and> toLowerCase (stat_name (entry_before m session)) = toLowerCase (resolve_name session)"
  using assms
  by (cases "map_of m (toLowerCase (resolve_name session))")
     (auto simp: entry_before_def new_entry_fields)

lemma process_session_inv:
  assumes "\<forall>k r. map_of m k = Some r \<longrightarrow>
             stat_completed r + stat_noshow r + stat_scheduled r = stat_total r \<and>
             toLowerCase (stat_name r) = k"
  shows "\<forall>k r. map_of (process_session nd now m session) k = Some r \<longrightarrow>
             stat_completed r + stat_noshow r + stat_scheduled r = stat_total r \<and>
             toLowerCase (stat_name r) = k"
proof (intro allI impI)
  fix k r
  assume kr: "map_of (process_session nd now m session) k = Some r"
  show "stat_completed r + stat_noshow r + stat_scheduled r = stat_total r \<and>
        toLowerCase (stat_name r) = k"
  proof (cases "k = toLowerCase (resolve_name session)")
    case True
    with kr have "r = update_entry nd now session (entry_before m session)"
      by (simp add: process_session_lookup)
    with entry_before_inv [OF assms, of session] True show ?thesis
      by (simp add: update_entry_sum update_entry_total update_entry_name)
  next
    case False
    with kr assms show ?thesis by (simp add: process_session_other)
  qed
qed

lemma process_sessions_inv:
  assumes "\<forall>k r. map_of m k = Some r \<longrightarrow>
             stat_completed r + stat_noshow r + stat_scheduled r = stat_total r \<and>
             toLowerCase (stat_name r) = k"
  shows "\<forall>k r. map_of (process_sessions nd clock i m sessions) k = Some r \<longrightarrow>
             stat_completed r + stat_noshow r + stat_scheduled r = stat_total r \<and>
             toLowerCase (stat_name r) = k"
  using assms
proof (induction sessions arbitrary: m i)
  case Nil
  then show ?case by simp
next
  case (Cons session sessions)
  from Cons.IH [OF process_session_inv [OF Cons.prems]] show ?case by simp
qed

subsection \<open>Seeding from the roster\<close>

lemma seed_employee_distinct:
  "distinct (map fst m) \<Longrightarrow> distinct (map fst (seed_employee m emp))"
  by (simp add: seed_employee_def Let_def distinct_update)

lemma foldl_seed_distinct:
  "distinct (map fst m) \<Longrightarrow> distinct (map fst (foldl seed_employee m employees))"
  by (induction employees arbitrary: m) (simp_all add: seed_employee_distinct)

lemma seed_employee_zero:
  assumes "\<forall>k r. map_of m k = Some r \<longrightarrow>
             stat_completed r = 0 \<and> stat_noshow r = 0 \<and> stat_scheduled r = 0 \<and>
             stat_total r = 0 \<and> toLowerCase (stat_name r) = k"
  shows "\<forall>k r. map_of (seed_employee m emp) k = Some r \<longrightarrow>
             stat_completed r = 0 \<and> stat_noshow r = 0 \<and> stat_scheduled r = 0 \<and>
             stat_total r = 0 \<and> toLowerCase (stat_name r) = k"
  using assms by (auto simp: seed_employee_def Let_def update_conv')

lemma foldl_seed_zero:
  assumes "\<forall>k r. map_of m k = Some r \<longrightarrow>
             stat_completed r = 0 \<and> stat_noshow r = 0 \<and> stat_scheduled r = 0 \<and>
             stat_total r = 0 \<and> toLowerCase (stat_name r) = k"
  shows "\<forall>k r. map_of (foldl seed_employee m employees) k = Some r \<longrightarrow>
             stat_completed r = 0 \<and> stat_noshow r = 0 \<and> stat_scheduled r = 0 \<and>
             stat_total r = 0 \<and> toLowerCase (stat_name r) = k"
  using assms
proof (induction employees arbitrary: m)
  case Nil
  then show ?case by simp
next
  case (Cons emp employees)
  from Cons.IH [OF seed_employee_zero [OF Cons.prems]] show ?case by simp
qed

lemma seed_employee_dom:
  "map_of (seed_employee m emp) k = None \<longleftrightarrow>
     k \<noteq> toLowerCase (employee_display_name emp) \<and> map_of m k = None"
  by (simp add: seed_employee_def Let_def update_conv')

lemma foldl_seed_dom:
  "map_of (foldl seed_employee m employees) k = None \<longleftrightarrow>
     list_all (\<lambda>emp. k \<noteq> toLowerCase (employee_display_name emp)) employees
     \<and> map_of m k = None"
  by (induction employees arbitrary: m) (auto simp: seed_employee_dom)

subsection \<open>The values of a map\<close>

lemma map_of_ran_distinct:
  assumes "distinct (map fst m)" and "r \<in> set (map snd m)"
  shows "\<exists>k. map_of m k = Some r"
proof -
  from assms(2) obtain k where "(k, r) \<in> set m" by auto
  with assms(1) have "map_of m k = Some r" by simp
  then show ?thesis ..
qed

lemma filter_values_single:
  "distinct (map fst m) \<Longrightarrow> \<forall>k r. map_of m k = Some r \<longrightarrow> g r = k \<Longrightarrow>
     map_of m k = Some r \<Longrightarrow> filter (\<lambda>r. g r = k) (map snd m) = [r]"
proof (induction m)
  case Nil
  then show ?case by simp
next
  case (Cons p m)
  obtain k' r' where p: "p = (k', r')" by (cases p)
  from Cons.prems(1) p have dm: "distinct (map fst m)" and nk: "k' \<notin> fst ` set m" by auto
  from nk have none: "map_of m k' = None" by (simp add: map_of_eq_None_iff)
  have gm: "\<forall>k r. map_of m k = Some r \<longrightarrow> g r = k"
  proof (intro allI impI)
    fix k r assume a: "map_of m k = Some r"
    with none have "k \<noteq> k'" by auto
    with a Cons.prems(2) p show "g r = k" by simp
  qed
  from Cons.prems(2) p have gp: "g r' = k'" by simp
  show ?case
  proof (cases "k = k'")
    case True
    with Cons.prems(3) p have "r' = r" by simp
    moreover have "filter (\<lambda>r. g r = k) (map snd m) = []"
    proof -
      have "\<forall>x \<in> set (map snd m). g x \<noteq> k"
      proof
        fix x assume "x \<in> set (map snd m)"
        with dm obtain kx where kx: "map_of m kx = Some x" by (blast dest: map_of_ran_distinct)
        with gm have "g x = kx" by blast
        moreover from kx none have "kx \<noteq> k'" by auto
        ultimately show "g x \<noteq> k" using True by simp
      qed
      then show ?thesis by (simp add: filter_empty_conv)
    qed
    ultimately show ?thesis using p gp True by simp
  next
    case False
    with Cons.prems(3) p have "map_of m k = Some r" by simp
    from Cons.IH [OF dm gm this] False p gp show ?thesis by simp
  qed
qed

lemma sum_update:
  "sum_list (map (f \<circ> snd) (AList.update k v m))
     + (case map_of m k of None \<Rightarrow> 0 | Some old \<Rightarrow> f old)
   = sum_list (map (f \<circ> snd) m) + (f v :: nat)"
  by (induction m) auto

lemma process_session_sum_total:
  "sum_list (map (stat_total \<circ> snd) (process_session nd now m session))
     = sum_list (map (stat_total \<circ> snd) m) + 1"
proof (cases "map_of m (toLowerCase (resolve_name session))")
  case None
  let ?k = "toLowerCase (resolve_name session)"
  let ?m1 = "AList.update ?k (new_entry session) m"
  from sum_update [of stat_total ?k "new_entry session" m] None
  have 1: "sum_list (map (stat_total \<circ> snd) ?m1) = sum_list (map (stat_total \<circ> snd) m)"
    by (simp add: new_entry_fields)
  have l: "map_of ?m1 ?k = Some (new_entry session)" by (simp add: update_conv')
  from sum_update [of stat_total ?k "update_entry nd now session (new_entry session)" ?m1] l
  have "sum_list (map (stat_total \<circ> snd)
          (AList.update ?k (update_entry nd now session (new_entry session)) ?m1))
        = sum_list (map (stat_total \<circ> snd) ?m1) + 1"
    by (simp add: update_entry_total new_entry_fields)
  with 1 None l show ?thesis by (simp add: process_session_def Let_def)
next
  case (Some e)
  let ?k = "toLowerCase (resolve_name session)"
  from sum_update [of stat_total ?k "update_entry nd now session e" m] Some
  show ?thesis by (simp add: process_session_def Let_def update_entry_total)
qed

lemma process_sessions_sum_total:
  "sum_list (map (stat_total \<circ> snd) (process_sessions nd clock i m sessions))
     = sum_list (map (stat_total \<circ> snd) m) + length sessions"
  by (induction sessions arbitrary: m i) (simp_all add: process_session_sum_total)

lemma update_total_zero:
  assumes "sum_list (map (stat_total \<circ> snd) m) = 0" and "stat_total v = 0"
  shows "sum_list (map (stat_total \<circ> snd) (AList.update k v m)) = 0"
proof -
  have "sum_list (map (stat_total \<circ> snd) (AList.update k v m))
          + (case map_of m k of None \<Rightarrow> 0 | Some old \<Rightarrow> stat_total old)
        = sum_list (map (stat_total \<circ> snd) m) + stat_total v"
    by (rule sum_update)
  with assms have "sum_list (map (stat_total \<circ> snd) (AList.update k v m))
          + (case map_of m k of None \<Rightarrow> 0 | Some old \<Rightarrow> stat_total old) = 0"
    by (simp only: add_0)
  then show ?thesis by (simp only: add_is_0)
qed

lemma seed_sum_total:
  "sum_list (map (stat_total \<circ> snd) m) = 0 \<Longrightarrow>
     sum_list (map (stat_total \<circ> snd) (seed_employee m emp)) = 0"
  unfolding seed_employee_def Let_def by (rule update_total_zero) simp_all

lemma foldl_seed_sum_total:
  "sum_list (map (stat_total \<circ> snd) m) = 0 \<Longrightarrow>
     sum_list (map (stat_total \<circ> snd) (foldl seed_employee m employees)) = 0"
proof (induction employees arbitrary: m)
  case Nil
  then show ?case by (simp only: foldl.simps)
next
  case (Cons emp employees)
  from Cons.IH [OF seed_sum_total [OF Cons.prems]] show ?case by (simp only: foldl.simps)
qed

subsection \<open>The claims about the aggregation\<close>

text \<open>
  C1.  Processing one session changes the map at one key only, the session's; the
  record there gets its total incremented and exactly one of its three status counters
  incremented by one.  In the output every record's completed, no-show and scheduled
  counts add up to its total, and the totals add up to the number of sessions.
\<close>

theorem aggregation_counts_partition:
  "(\<forall>m session.
      map_of (process_session nd now m session) (toLowerCase (resolve_name session))
        = Some (update_entry nd now session (entry_before m session)) \<and>
      (\<forall>k. k \<noteq> toLowerCase (resolve_name session) \<longrightarrow>
           map_of (process_session nd now m session) k = map_of m k) \<and>
      stat_total (update_entry nd now session (entry_before m session))
        = stat_total (entry_before m session) + 1 \<and>
      (counter_delta (entry_before m session)
           (update_entry nd now session (entry_before m session)) = (1, 0, 0) \<or>
       counter_delta (entry_before m session)
           (update_entry nd now session (entry_before m session)) = (0, 1, 0) \<or>
       counter_delta (entry_before m session)
           (update_entry nd now session (entry_before m session)) = (0, 0, 1))) \<and>
   (\<forall>r \<in> set (aggregatedStats nd clock sessions employees).
      stat_completed r + stat_noshow r + stat_scheduled r = stat_total r) \<and>
   sum_list (map stat_total (aggregatedStats nd clock sessions employees)) = length sessions"
proof -
  let ?seeded = "foldl seed_employee [] employees"
  let ?final = "process_sessions nd clock 0 ?seeded sessions"
  have step: "map_of (process_session nd now m session) (toLowerCase (resolve_name session))
        = Some (update_entry nd now session (entry_before m session)) \<and>
      (\<forall>k. k \<noteq> toLowerCase (resolve_name session) \<longrightarrow>
           map_of (process_session nd now m session) k = map_of m k) \<and>
      stat_total (update_entry nd now session (entry_before m session))
        = stat_total (entry_before m session) + 1 \<and>
      (counter_delta (entry_before m session)
           (update_entry nd now session (entry_before m session)) = (1, 0, 0) \<or>
       counter_delta (entry_before m session)
           (update_entry nd now session (entry_before m session)) = (0, 1, 0) \<or>
       counter_delta (entry_before m session)
           (update_entry nd now session (entry_before m session)) = (0, 0, 1))" for m session
    using counter_delta_cases [of "entry_before m session" nd now session]
    by (simp add: process_session_lookup process_session_other update_entry_total)
  have dist: "distinct (map fst ?final)"
    by (rule process_sessions_distinct, rule foldl_seed_distinct) simp
  have "\<forall>k r. map_of ?seeded k = Some r \<longrightarrow>
          stat_completed r = 0 \<and> stat_noshow r = 0 \<and> stat_scheduled r = 0 \<and>
          stat_total r = 0 \<and> toLowerCase (stat_name r) = k"
    by (rule foldl_seed_zero) simp
  then have "\<forall>k r. map_of ?seeded k = Some r \<longrightarrow>
          stat_completed r + stat_noshow r + stat_scheduled r = stat_total r \<and>
          toLowerCase (stat_name r) = k"
    by simp
  then have inv: "\<forall>k r. map_of ?final k = Some r \<longrightarrow>
          stat_completed r + stat_noshow r + stat_scheduled r = stat_total r \<and>
          toLowerCase (stat_name r) = k"
    by (rule process_sessions_inv)
  have all: "\<forall>r \<in> set (aggregatedStats nd clock sessions employees).
      stat_completed r + stat_noshow r + stat_scheduled r = stat_total r"
  proof
    fix r assume "r \<in> set (aggregatedStats nd clock sessions employees)"
    then have "r \<in> set (map snd ?final)" by (simp add: aggregatedStats_def)
    with dist obtain k where "map_of ?final k = Some r" by (blast dest: map_of_ran_distinct)
    with inv show "stat_completed r + stat_noshow r + stat_scheduled r = stat_total r" by blast
  qed
  have "sum_list (map (stat_total \<circ> snd) ?seeded) = 0"
    by (rule foldl_seed_sum_total) simp
  then have "sum_list (map (stat_total \<circ> snd) ?final) = length sessions"
    by (simp only: process_sessions_sum_total add_0)
  then have total: "sum_list (map stat_total (aggregatedStats nd clock sessions employees))
                      = length sessions"
    by (simp add: aggregatedStats_def)
  from step all total show ?thesis by blast
qed

theorem aggregation_counts_partition_witness:
  "aggregatedStats example_newDate example_clock [session_flat, session_late_cancel] [alice, carol]
     = [\<lparr>stat_id = Num 1, stat_name = ''Alice Johnson'', stat_program = ''Eng'',
          stat_avatar_url = Undefined, stat_completed = 1, stat_noshow = 0,
          stat_scheduled = 0, stat_total = 1,
          stat_latestSession = Some (Some 1698192000000)\<rparr>,
        \<lparr>stat_id = Num 2, stat_name = ''Carol Diaz'', stat_program = ''Unassigned'',
          stat_avatar_url = Undefined, stat_completed = 0, stat_noshow = 0,
          stat_scheduled = 0, stat_total = 0, stat_latestSession = None\<rparr>,
        \<lparr>stat_id = Num 12, stat_name = ''Bo Chen'', stat_program = ''Unassigned'',
          stat_avatar_url = Undefined, stat_completed = 0, stat_noshow = 1,
          stat_scheduled = 0, stat_total = 1,
          stat_latestSession = Some (Some 1698192000000)\<rparr>] \<and>
   list_all (\<lambda>r. stat_completed r + stat_noshow r + stat_scheduled r = stat_total r)
     (aggregatedStats example_newDate example_clock [session_flat, session_late_cancel]
        [alice, carol]) \<and>
   sum_list (map stat_total
     (aggregatedStats example_newDate example_clock [session_flat, session_late_cancel]
        [alice, carol])) = 2"
proof -
  have v: "aggregatedStats example_newDate example_clock [session_flat, session_late_cancel]
             [alice, carol]
     = [\<lparr>stat_id = Num 1, stat_name = ''Alice Johnson'', stat_program = ''Eng'',
          stat_avatar_url = Undefined, stat_completed = 1, stat_noshow = 0,
          stat_scheduled = 0, stat_total = 1,
          stat_latestSession = Some (Some 1698192000000)\<rparr>,
        \<lparr>stat_id = Num 2, stat_name = ''Carol Diaz'', stat_program = ''Unassigned'',
          stat_avatar_url = Undefined, stat_completed = 0, stat_noshow = 0,
          stat_scheduled = 0, stat_total = 0, stat_latestSession = None\<rparr>,
        \<lparr>stat_id = Num 12, stat_name = ''Bo Chen'', stat_program = ''Unassigned'',
          stat_avatar_url = Undefined, stat_completed = 0, stat_noshow = 1,
          stat_scheduled = 0, stat_total = 1,
          stat_latestSession = Some (Some 1698192000000)\<rparr>]"
    by code_simp
  note t = aggregation_counts_partition [of example_newDate 0 example_clock
      "[session_flat, session_late_cancel]" "[alice, carol]"]
  from t [THEN conjunct2, THEN conjunct1]
  have "list_all (\<lambda>r. stat_completed r + stat_noshow r + stat_scheduled r = stat_total r)
     (aggregatedStats example_newDate example_clock [session_flat, session_late_cancel]
        [alice, carol])"
    by (simp only: list_all_iff)
  moreover from t [THEN conjunct2, THEN conjunct2] have "sum_list (map stat_total
     (aggregatedStats example_newDate example_clock [session_flat, session_late_cancel]
        [alice, carol])) = 2"
    by simp
  ultimately show ?thesis using v by simp
qed

text \<open>
  C4.  For a roster employee whose key no session resolves to, the output holds
  exactly one record under that key, and its four counts are zero.
\<close>

theorem roster_employee_without_sessions:
  assumes "emp \<in> set employees"
    and "\<forall>session \<in> set sessions.
           toLowerCase (resolve_name session) \<noteq> toLowerCase (employee_display_name emp)"
  shows "\<exists>r. filter (\<lambda>r. toLowerCase (stat_name r) = toLowerCase (employee_display_name emp))
                (aggregatedStats nd clock sessions employees) = [r] \<and>
             stat_completed r = 0 \<and> stat_noshow r = 0 \<and> stat_scheduled r = 0 \<and>
             stat_total r = 0"
proof -
  let ?k = "toLowerCase (employee_display_name emp)"
  let ?seeded = "foldl seed_employee [] employees"
  let ?final = "process_sessions nd clock 0 ?seeded sessions"
  from assms(1) have "\<not> list_all (\<lambda>e. ?k \<noteq> toLowerCase (employee_display_name e)) employees"
    by (auto simp: list_all_iff)
  then have "map_of ?seeded ?k \<noteq> None"
    by (simp add: foldl_seed_dom)
  then obtain r where r: "map_of ?seeded ?k = Some r" by blast
  have "\<forall>k r. map_of ?seeded k = Some r \<longrightarrow>
          stat_completed r = 0 \<and> stat_noshow r = 0 \<and> stat_scheduled r = 0 \<and>
          stat_total r = 0 \<and> toLowerCase (stat_name r) = k"
    by (rule foldl_seed_zero) simp
  then have zero: "\<forall>k r. map_of ?seeded k = Some r \<longrightarrow>
          stat_completed r = 0 \<and> stat_noshow r = 0 \<and> stat_scheduled r = 0 \<and>
          stat_total r = 0"
    and inv0: "\<forall>k r. map_of ?seeded k = Some r \<longrightarrow>
          stat_completed r + stat_noshow r + stat_scheduled r = stat_total r \<and>
          toLowerCase (stat_name r) = k"
    by simp_all
  from inv0 have "\<forall>k r. map_of ?final k = Some r \<longrightarrow>
          stat_completed r + stat_noshow r + stat_scheduled r = stat_total r \<and>
          toLowerCase (stat_name r) = k"
    by (rule process_sessions_inv)
  then have key: "\<forall>k r. map_of ?final k = Some r \<longrightarrow> toLowerCase (stat_name r) = k"
    by blast
  have dist: "distinct (map fst ?final)"
    by (rule process_sessions_distinct, rule foldl_seed_distinct) simp
  from assms(2) have "list_all (\<lambda>session. ?k \<noteq> toLowerCase (resolve_name session)) sessions"
    by (auto simp: list_all_iff)
  then have "map_of ?final ?k = map_of ?seeded ?k"
    by (rule process_sessions_other)
  with r have fin: "map_of ?final ?k = Some r" by simp
  from filter_values_single [of ?final "\<lambda>r. toLowerCase (stat_name r)", OF dist key fin]
  have "filter (\<lambda>r. toLowerCase (stat_name r) = ?k)
          (aggregatedStats nd clock sessions employees) = [r]"
    by (simp add: aggregatedStats_def)
  with zero r show ?thesis by blast
qed

theorem roster_employee_without_sessions_witness:
  "carol \<in> set [alice, carol] \<and>
   list_all (\<lambda>session. toLowerCase (resolve_name session) \<noteq> toLowerCase (employee_display_name carol))
     [session_flat, session_late_cancel] \<and>
   filter (\<lambda>r. toLowerCase (stat_name r) = toLowerCase (employee_display_name carol))
     (aggregatedStats example_newDate example_clock [session_flat, session_late_cancel]
        [alice, carol])
     = [\<lparr>stat_id = Num 2, stat_name = ''Carol Diaz'', stat_program = ''Unassigned'',
          stat_avatar_url = Undefined, stat_completed = 0, stat_noshow = 0,
          stat_scheduled = 0, stat_total = 0, stat_latestSession = None\<rparr>]"
proof -
  have m: "carol \<in> set [alice, carol]" by simp
  have n: "list_all (\<lambda>session. toLowerCase (resolve_name session)
              \<noteq> toLowerCase (employee_display_name carol))
            [session_flat, session_late_cancel]"
    by code_simp
  then have n': "\<forall>session \<in> set [session_flat, session_late_cancel].
           toLowerCase (resolve_name session) \<noteq> toLowerCase (employee_display_name carol)"
    by (simp only: list_all_iff)
  from roster_employee_without_sessions [OF m n', of example_newDate example_clock]
  obtain r where r: "filter (\<lambda>r. toLowerCase (stat_name r) = toLowerCase (employee_display_name carol))
                (aggregatedStats example_newDate example_clock
                   [session_flat, session_late_cancel] [alice, carol]) = [r]"
    by (elim exE conjE)
  have "filter (\<lambda>r. toLowerCase (stat_name r) = toLowerCase (employee_display_name carol))
     (aggregatedStats example_newDate example_clock [session_flat, session_late_cancel]
        [alice, carol])
     = [\<lparr>stat_id = Num 2, stat_name = ''Carol Diaz'', stat_program = ''Unassigned'',
          stat_avatar_url = Undefined, stat_completed = 0, stat_noshow = 0,
          stat_scheduled = 0, stat_total = 0, stat_latestSession = None\<rparr>]"
    by code_simp
  with m n r show ?thesis by simp
qed

text \<open>
  C8.  A session whose status contains, in any letter case, the text late cancel is
  counted as a no-show and as nothing else, whatever its date and the clock.
\<close>

theorem late_cancel_is_noshow:
  assumes "s_status session = Val status"
    and "status = pre @ mid @ post"
    and "toLowerCase mid = ''late cancel''"
  shows "map_of (process_session nd now m session) (toLowerCase (resolve_name session))
           = Some (update_entry nd now session (entry_before m session)) \<and>
         counter_delta (entry_before m session)
           (update_entry nd now session (entry_before m session)) = (0, 1, 0)"
proof -
  from assms(2) have "status \<noteq> []" using assms(3) by (auto simp: toLowerCase_def)
  with assms(1) have "or_lit (s_status session) [] = pre @ mid @ post"
    using assms(2) by simp
  moreover from assms(3) have "includes_js (toLowerCase (pre @ mid @ post)) ''late cancel''"
    by (rule includes_js_toLowerCase)
  ultimately show ?thesis
    by (simp add: process_session_lookup counter_delta_update_entry Let_def)
qed

theorem late_cancel_is_noshow_witness:
  "s_status session_late_cancel = Val ''Client Late Cancel'' \<and>
   ''Client Late Cancel'' = ''Client '' @ ''Late Cancel'' @ [] \<and>
   toLowerCase ''Late Cancel'' = ''late cancel'' \<and>
   date_less (example_newDate (s_session_date session_late_cancel)) (Some (example_clock 0)) \<and>
   counter_delta (entry_before [] session_late_cancel)
     (update_entry example_newDate (example_clock 0) session_late_cancel
        (entry_before [] session_late_cancel)) = (0, 1, 0)"
proof -
  have 1: "s_status session_late_cancel = Val ''Client Late Cancel''"
    by (simp add: session_late_cancel_def session_flat_def)
  have 2: "''Client Late Cancel'' = ''Client '' @ ''Late Cancel'' @ []" by simp
  have 3: "toLowerCase ''Late Cancel'' = ''late cancel''" by code_simp
  have 4: "date_less (example_newDate (s_session_date session_late_cancel))
             (Some (example_clock 0))"
    by (simp add: session_late_cancel_def session_flat_def example_newDate_def
          example_clock_def)
  note t = late_cancel_is_noshow [OF 1 2 3, of example_newDate "example_clock 0" "[]",
      THEN conjunct2]
  show ?thesis by (rule conjI [OF 1 conjI [OF 2 conjI [OF 3 conjI [OF 4 t]]]])
qed

text \<open>
  C9.  A session whose status is empty (missing, null or the empty string) is
  counted as completed when its date is before the current moment, and as scheduled
  otherwise.
\<close>

theorem empty_status_by_date:
  assumes "or_lit (s_status session) [] = []"
  shows "map_of (process_session nd now m session) (toLowerCase (resolve_name session))
           = Some (update_entry nd now session (entry_before m session)) \<and>
         (date_less (nd (s_session_date session)) (Some now) \<longrightarrow>
            counter_delta (entry_before m session)
              (update_entry nd now session (entry_before m session)) = (1, 0, 0)) \<and>
         (\<not> date_less (nd (s_session_date session)) (Some now) \<longrightarrow>
            counter_delta (entry_before m session)
              (update_entry nd now session (entry_before m session)) = (0, 0, 1))"
proof -
  have "toLowerCase [] = []" by (simp add: toLowerCase_def)
  with assms show ?thesis
    by (simp add: process_session_lookup counter_delta_update_entry Let_def)
qed

theorem empty_status_by_date_witness:
  "or_lit (s_status session_blank_past) [] = [] \<and>
   date_less (example_newDate (s_session_date session_blank_past)) (Some (example_clock 0)) \<and>
   counter_delta (entry_before [] session_blank_past)
     (update_entry example_newDate (example_clock 0) session_blank_past
        (entry_before [] session_blank_past)) = (1, 0, 0) \<and>
   or_lit (s_status session_blank_future) [] = [] \<and>
   \<not> date_less (example_newDate (s_session_date session_blank_future)) (Some (example_clock 0)) \<and>
   counter_delta (entry_before [] session_blank_future)
     (update_entry example_newDate (example_clock 0) session_blank_future
        (entry_before [] session_blank_future)) = (0, 0, 1)"
proof -
  have 1: "or_lit (s_status session_blank_past) [] = []"
    by (simp add: session_blank_past_def session_flat_def)
  have 2: "date_less (example_newDate (s_session_date session_blank_past))
             (Some (example_clock 0))"
    by (simp add: session_blank_past_def session_flat_def example_newDate_def
          example_clock_def)
  have 3: "or_lit (s_status session_blank_future) [] = []"
    by (simp add: session_blank_future_def session_flat_def)
  have 4: "\<not> date_less (example_newDate (s_session_date session_blank_future))
             (Some (example_clock 0))"
    by (simp add: session_blank_future_def session_flat_def example_newDate_def
          example_clock_def)
  from empty_status_by_date [OF 1, of example_newDate "example_clock 0" "[]"]
       empty_status_by_date [OF 3, of example_newDate "example_clock 0" "[]"] 1 2 3 4
  show ?thesis by simp
qed

end
